theory Spec2Isabelle
  imports Main "HOL-Library.Word"
begin

section \<open>Go strings, runes and UTF-8\<close>

text \<open>
  A Go string is a sequence of bytes: it is modelled as \<^typ>\<open>string\<close>, a list of 8-bit
  characters. A rune is a Unicode code point, modelled as a natural number. The machine
  type \<open>int\<close> is taken as 64 bits wide (the width on which \<open>"2G"\<close> is 2147483648).
\<close>

type_synonym rune = nat

abbreviation ord :: "char \<Rightarrow> nat" where
  "ord c \<equiv> of_char c"

definition RuneError :: rune where
  "RuneError = 0xFFFD"

definition RuneSelf :: nat where
  "RuneSelf = 0x80"

text \<open>\<open>utf8.DecodeRuneInString\<close>: the first rune of the string and its width in bytes;
  an invalid or short encoding is \<open>(RuneError, 1)\<close>, the empty string \<open>(RuneError, 0)\<close>.\<close>

definition DecodeRuneInString :: "string \<Rightarrow> rune \<times> nat" where
  "DecodeRuneInString s =
     (if length s < 1 then (RuneError, 0)
      else
        let s0 = ord (s ! 0) in
        if s0 < RuneSelf then (s0, 1)
        else if s0 < 0xC2 \<or> 0xF4 < s0 then (RuneError, 1)
        else
          let sz = (if s0 < 0xE0 then 2 else if s0 < 0xF0 then 3 else 4 :: nat);
              lo = (if s0 = 0xE0 then 0xA0 else if s0 = 0xF0 then 0x90 else 0x80 :: nat);
              hi = (if s0 = 0xED then 0x9F else if s0 = 0xF4 then 0x8F else 0xBF :: nat)
          in
          if length s < sz then (RuneError, 1)
          else
            let s1 = ord (s ! 1) in
            if s1 < lo \<or> hi < s1 then (RuneError, 1)
            else if sz \<le> 2 then ((s0 mod 32) * 64 + s1 mod 64, 2)
            else
              let s2 = ord (s ! 2) in
              if s2 < 0x80 \<or> 0xBF < s2 then (RuneError, 1)
              else if sz \<le> 3 then ((s0 mod 16) * 4096 + (s1 mod 64) * 64 + s2 mod 64, 3)
              else
                let s3 = ord (s ! 3) in
                if s3 < 0x80 \<or> 0xBF < s3 then (RuneError, 1)
                else ((s0 mod 8) * 262144 + (s1 mod 64) * 4096 + (s2 mod 64) * 64 + s3 mod 64, 4))"

text \<open>\<open>utf8.RuneStart\<close>: the byte is not a continuation byte.\<close>

definition RuneStart :: "nat \<Rightarrow> bool" where
  "RuneStart b = (b div 64 \<noteq> 2)"

text \<open>The backward scan of \<open>utf8.DecodeLastRuneInString\<close>: from \<open>start\<close> down to \<open>lim\<close>,
  stopping at the first byte that starts a rune; the result is the final \<open>start\<close>, which
  is \<open>lim - 1\<close> (as an integer) when no byte in range starts a rune.\<close>

fun lastRuneStart :: "string \<Rightarrow> nat \<Rightarrow> nat \<Rightarrow> int" where
  "lastRuneStart s lim 0 = (if lim = 0 \<and> \<not> RuneStart (ord (s ! 0)) then - 1 else 0)"
| "lastRuneStart s lim (Suc start) =
     (if Suc start < lim then int (Suc start)
      else if RuneStart (ord (s ! Suc start)) then int (Suc start)
      else lastRuneStart s lim start)"

definition lastRuneIndex :: "string \<Rightarrow> nat" where
  "lastRuneIndex s =
     (let n = length s;
          lim = n - 4;
          start = (if n - 1 = 0 then - 1 else lastRuneStart s lim (n - 2))
      in if start < 0 then 0 else nat start)"

definition DecodeLastRuneInString :: "string \<Rightarrow> rune \<times> nat" where
  "DecodeLastRuneInString s =
     (let n = length s in
      if n = 0 then (RuneError, 0)
      else
        let r = ord (s ! (n - 1)) in
        if r < RuneSelf then (r, 1)
        else
          let start = lastRuneIndex s in
          case DecodeRuneInString (drop start s) of
            (r', wid) \<Rightarrow> if start + wid \<noteq> n then (RuneError, 1) else (r', wid))"

text \<open>The conversion \<open>string(r)\<close>: the UTF-8 encoding of the rune, of \<open>RuneError\<close> when
  the rune is a surrogate or out of range.\<close>

definition string_of_rune :: "rune \<Rightarrow> string" where
  "string_of_rune r =
     (if r < 0x80 then [char_of r]
      else if r < 0x800 then [char_of (0xC0 + r div 64), char_of (0x80 + r mod 64)]
      else
        let r' = (if (0xD800 \<le> r \<and> r \<le> 0xDFFF) \<or> 0x10FFFF < r then RuneError else r) in
        if r' < 0x10000
        then [char_of (0xE0 + r' div 4096), char_of (0x80 + (r' div 64) mod 64),
              char_of (0x80 + r' mod 64)]
        else [char_of (0xF0 + r' div 262144), char_of (0x80 + (r' div 4096) mod 64),
              char_of (0x80 + (r' div 64) mod 64), char_of (0x80 + r' mod 64)])"

text \<open>The runes that \<open>for _, r := range s\<close> yields.\<close>

function runes :: "string \<Rightarrow> rune list" where
  "runes s =
     (if s = [] then []
      else (case DecodeRuneInString s of (r, wid) \<Rightarrow> r # runes (drop wid s)))"
  by pat_completeness auto
termination
  by (relation "measure length")
     (auto simp: DecodeRuneInString_def Let_def split: if_splits)

section \<open>Package unicode\<close>

text \<open>
  \<open>unicode.IsDigit\<close> decides Latin-1 runes by comparison and every other rune by the
  range table of the category Nd, which depends on the Unicode version of the toolchain:
  the table is the parameter \<open>Digit\<close>.
\<close>

definition MaxLatin1 :: rune where
  "MaxLatin1 = 0xFF"

definition IsDigit :: "(rune \<Rightarrow> bool) \<Rightarrow> rune \<Rightarrow> bool" where
  "IsDigit Digit r =
     (if r \<le> MaxLatin1 then ord CHR ''0'' \<le> r \<and> r \<le> ord CHR ''9'' else Digit r)"

text \<open>The table \<open>White_Space\<close> beyond Latin-1.\<close>

definition White_Space :: "rune \<Rightarrow> bool" where
  "White_Space r =
     (r = 0x1680 \<or> (0x2000 \<le> r \<and> r \<le> 0x200A) \<or> r = 0x2028 \<or> r = 0x2029
      \<or> r = 0x202F \<or> r = 0x205F \<or> r = 0x3000)"

definition IsSpace :: "rune \<Rightarrow> bool" where
  "IsSpace r =
     (if r \<le> MaxLatin1
      then r = 0x09 \<or> r = 0x0A \<or> r = 0x0B \<or> r = 0x0C \<or> r = 0x0D \<or> r = 0x20
           \<or> r = 0x85 \<or> r = 0xA0
      else White_Space r)"

section \<open>Package strings\<close>

text \<open>\<open>strings.TrimLeftFunc\<close> and \<open>strings.TrimRightFunc\<close>: runes are decoded from the
  front (from the back) and dropped as long as the predicate holds. That the backward
  loop terminates is shown below, from the width of the last rune.\<close>

function TrimLeftFunc :: "string \<Rightarrow> (rune \<Rightarrow> bool) \<Rightarrow> string" where
  "TrimLeftFunc s f =
     (if s = [] then []
      else (case DecodeRuneInString s of
              (r, wid) \<Rightarrow> if f r then TrimLeftFunc (drop wid s) f else s))"
  by pat_completeness auto
termination
  by (relation "measure (\<lambda>(s, f). length s)")
     (auto simp: DecodeRuneInString_def Let_def split: if_splits)

function TrimRightFunc :: "string \<Rightarrow> (rune \<Rightarrow> bool) \<Rightarrow> string" where
  "TrimRightFunc s f =
     (if s = [] then []
      else (case DecodeLastRuneInString s of
              (r, wid) \<Rightarrow>
                if f r then TrimRightFunc (take (length s - wid) s) f else s))"
  by pat_completeness auto
definition TrimFunc :: "string \<Rightarrow> (rune \<Rightarrow> bool) \<Rightarrow> string" where
  "TrimFunc s f = TrimRightFunc (TrimLeftFunc s f) f"

definition TrimSpace :: "string \<Rightarrow> string" where
  "TrimSpace s = TrimFunc s IsSpace"

definition HasPrefix :: "string \<Rightarrow> string \<Rightarrow> bool" where
  "HasPrefix s prefix = (length prefix \<le> length s \<and> take (length prefix) s = prefix)"

definition TrimPrefix :: "string \<Rightarrow> string \<Rightarrow> string" where
  "TrimPrefix s prefix = (if HasPrefix s prefix then drop (length prefix) s else s)"

section \<open>Package strconv\<close>

datatype NumError = ErrSyntax | ErrRange

text \<open>The value of a digit byte in \<open>strconv.ParseUint\<close>: decimal digits and letters of
  either case; \<open>None\<close> for every other byte.\<close>

definition digitVal :: "char \<Rightarrow> nat option" where
  "digitVal c =
     (let b = ord c in
      if ord CHR ''0'' \<le> b \<and> b \<le> ord CHR ''9'' then Some (b - ord CHR ''0'')
      else if ord CHR ''a'' \<le> b \<and> b \<le> ord CHR ''z'' then Some (b - ord CHR ''a'' + 10)
      else if ord CHR ''A'' \<le> b \<and> b \<le> ord CHR ''Z'' then Some (b - ord CHR ''A'' + 10)
      else None)"

text \<open>The digit loop of \<open>strconv.ParseUint\<close> for an explicit base (2 to 36, so that no
  prefix and no underscore is accepted): \<open>n\<close> is the value so far, a \<open>uint64\<close>.\<close>

fun ParseUint_loop :: "string \<Rightarrow> nat \<Rightarrow> nat \<Rightarrow> nat \<Rightarrow> NumError + nat" where
  "ParseUint_loop [] base maxVal n = Inr n"
| "ParseUint_loop (c # cs) base maxVal n =
     (case digitVal c of
        None \<Rightarrow> Inl ErrSyntax
      | Some d \<Rightarrow>
          if base \<le> d then Inl ErrSyntax
          else if (2 ^ 64 - 1) div base + 1 \<le> n then Inl ErrRange
          else
            let n1 = n * base + d in
            if 2 ^ 64 \<le> n1 \<or> maxVal < n1 then Inl ErrRange
            else ParseUint_loop cs base maxVal n1)"

definition ParseUint :: "string \<Rightarrow> nat \<Rightarrow> nat \<Rightarrow> NumError + nat" where
  "ParseUint s base bitSize =
     (if s = [] then Inl ErrSyntax
      else ParseUint_loop s base (2 ^ (if bitSize = 0 then 64 else bitSize) - 1) 0)"

text \<open>\<open>strconv.ParseInt(s, 10, 0)\<close> on a 64-bit \<open>int\<close>: an optional sign, then
  \<open>ParseUint\<close>, then the range of a signed 64-bit value.\<close>

definition ParseInt10 :: "string \<Rightarrow> NumError + 64 word" where
  "ParseInt10 s =
     (if s = [] then Inl ErrSyntax
      else
        let neg = (hd s = CHR ''-'');
            s' = (if hd s = CHR ''+'' \<or> hd s = CHR ''-'' then tl s else s)
        in case ParseUint s' 10 0 of
             Inl e \<Rightarrow> Inl e
           | Inr un \<Rightarrow>
               if \<not> neg \<and> 2 ^ 63 \<le> un then Inl ErrRange
               else if neg \<and> 2 ^ 63 < un then Inl ErrRange
               else Inr (if neg then - word_of_nat un else word_of_nat un))"

text \<open>\<open>strconv.Atoi\<close>: its fast path for short strings computes the same result as
  \<open>ParseInt(s, 10, 0)\<close>, to which it falls back.\<close>

definition Atoi :: "string \<Rightarrow> NumError + 64 word" where
  "Atoi s = ParseInt10 s"

section \<open>The bandwidth parser\<close>

text \<open>The loop of \<open>parseBandwith\<close> over the runes of the trimmed string, with the
  variables \<open>digits\<close> and \<open>multiplier\<close>; \<open>None\<close> is the \<open>return 0, false\<close> of the
  \<open>default\<close> case.\<close>

fun parseBandwith_loop ::
  "(rune \<Rightarrow> bool) \<Rightarrow> rune list \<Rightarrow> string \<Rightarrow> 64 word \<Rightarrow> (string \<times> 64 word) option" where
  "parseBandwith_loop Digit [] digits multiplier = Some (digits, multiplier)"
| "parseBandwith_loop Digit (r # rs) digits multiplier =
     (if IsDigit Digit r then parseBandwith_loop Digit rs (digits @ string_of_rune r) multiplier
      else if IsSpace r then parseBandwith_loop Digit rs digits multiplier
      else if r = ord CHR ''k'' \<or> r = ord CHR ''K''
        then parseBandwith_loop Digit rs digits 1024
      else if r = ord CHR ''m'' \<or> r = ord CHR ''M''
        then parseBandwith_loop Digit rs digits (1024 * 1024)
      else if r = ord CHR ''g'' \<or> r = ord CHR ''G''
        then parseBandwith_loop Digit rs digits (1024 * 1024 * 1024)
      else None)"

definition parseBandwith :: "(rune \<Rightarrow> bool) \<Rightarrow> string \<Rightarrow> 64 word \<times> bool" where
  "parseBandwith Digit s =
     (if s = [] then (0, True)
      else
        case parseBandwith_loop Digit (runes (TrimSpace s)) [] 1 of
          None \<Rightarrow> (0, False)
        | Some (digits, multiplier) \<Rightarrow>
            (case Atoi digits of
               Inl err \<Rightarrow> (0, False)
             | Inr rate \<Rightarrow> (rate * multiplier, True)))"

section \<open>Package net/url\<close>

text \<open>
  \<open>url.Parse\<close> of the Go standard library, with the fields of \<open>URL\<close> that parsing
  decides. The hints \<open>RawPath\<close>, \<open>RawFragment\<close> and \<open>OmitHost\<close>, which are computed
  from the parsed value by re-escaping it and are never read by this program, are left out.
\<close>

datatype encoding =
    encodePath | encodePathSegment | encodeHost | encodeZone
  | encodeUserPassword | encodeQueryComponent | encodeFragment

datatype url_error =
    InvalidControlCharacter
  | MissingProtocolScheme
  | FirstPathSegmentColon
  | MissingBracketInHost
  | InvalidPort string
  | InvalidUserinfo
  | EscapeError string
  | InvalidHostError string

text \<open>\<open>url.Error\<close>: the operation, the URL and the underlying error.\<close>

datatype Error = Error string string url_error

record Userinfo =
  username :: string
  password :: string
  passwordSet :: bool

record URL =
  Scheme :: string
  Opaque :: string
  User :: "Userinfo option"
  Host :: string
  Path :: string
  ForceQuery :: bool
  RawQuery :: string
  Fragment :: string

definition emptyURL :: URL where
  "emptyURL = \<lparr>Scheme = [], Opaque = [], User = None, Host = [], Path = [],
                ForceQuery = False, RawQuery = [], Fragment = []\<rparr>"

definition isLower :: "char \<Rightarrow> bool" where
  "isLower c = (ord CHR ''a'' \<le> ord c \<and> ord c \<le> ord CHR ''z'')"

definition isUpper :: "char \<Rightarrow> bool" where
  "isUpper c = (ord CHR ''A'' \<le> ord c \<and> ord c \<le> ord CHR ''Z'')"

definition isNum :: "char \<Rightarrow> bool" where
  "isNum c = (ord CHR ''0'' \<le> ord c \<and> ord c \<le> ord CHR ''9'')"

definition ishex :: "char \<Rightarrow> bool" where
  "ishex c =
     (isNum c \<or> (ord CHR ''a'' \<le> ord c \<and> ord c \<le> ord CHR ''f'')
      \<or> (ord CHR ''A'' \<le> ord c \<and> ord c \<le> ord CHR ''F''))"

definition unhex :: "char \<Rightarrow> nat" where
  "unhex c =
     (if isNum c then ord c - ord CHR ''0''
      else if ord CHR ''a'' \<le> ord c \<and> ord c \<le> ord CHR ''f'' then ord c - ord CHR ''a'' + 10
      else if ord CHR ''A'' \<le> ord c \<and> ord c \<le> ord CHR ''F'' then ord c - ord CHR ''A'' + 10
      else 0)"

definition shouldEscape :: "char \<Rightarrow> encoding \<Rightarrow> bool" where
  "shouldEscape c mode =
     (if isLower c \<or> isUpper c \<or> isNum c then False
      else if (mode = encodeHost \<or> mode = encodeZone) \<and> c \<in> set (''!$&()*+,;=:[]<>'' @ [CHR 0x27, CHR 0x22])
        then False
      else if c \<in> set ''-_.~'' then False
      else if c \<in> set ''$&+,/:;=?@'' \<and> mode = encodePath then c = CHR ''?''
      else if c \<in> set ''$&+,/:;=?@'' \<and> mode = encodePathSegment
        then c = CHR ''/'' \<or> c = CHR '';'' \<or> c = CHR '','' \<or> c = CHR ''?''
      else if c \<in> set ''$&+,/:;=?@'' \<and> mode = encodeUserPassword
        then c = CHR ''@'' \<or> c = CHR ''/'' \<or> c = CHR ''?'' \<or> c = CHR '':''
      else if c \<in> set ''$&+,/:;=?@'' \<and> mode = encodeQueryComponent then True
      else if c \<in> set ''$&+,/:;=?@'' \<and> mode = encodeFragment then False
      else if mode = encodeFragment \<and> c \<in> set ''!()*'' then False
      else True)"

text \<open>
  \<open>unescape\<close>: the source scans the string twice, first for malformed escapes and for
  bytes a host may not hold, then to build the result. The two scans are one recursion
  here: the error is that of the first place the first scan rejects, the result is what
  the second scan builds.
\<close>

fun unescape :: "string \<Rightarrow> encoding \<Rightarrow> url_error + string" where
  "unescape [] mode = Inr []"
| "unescape (c # s) mode =
     (if c = CHR ''%'' then
        (case s of
           h1 # h2 # s' \<Rightarrow>
             if \<not> ishex h1 \<or> \<not> ishex h2 then Inl (EscapeError (take 3 (c # s)))
             else if mode = encodeHost \<and> unhex h1 < 8 \<and> [c, h1, h2] \<noteq> ''%25''
               then Inl (EscapeError [c, h1, h2])
             else if mode = encodeZone \<and> [c, h1, h2] \<noteq> ''%25''
                     \<and> unhex h1 * 16 + unhex h2 \<noteq> ord CHR '' ''
                     \<and> shouldEscape (char_of (unhex h1 * 16 + unhex h2)) encodeHost
               then Inl (EscapeError [c, h1, h2])
             else (case unescape s' mode of
                     Inl e \<Rightarrow> Inl e
                   | Inr t \<Rightarrow> Inr (char_of (unhex h1 * 16 + unhex h2) # t))
         | _ \<Rightarrow> Inl (EscapeError (take 3 (c # s))))
      else if c = CHR ''+'' then
        (case unescape s mode of
           Inl e \<Rightarrow> Inl e
         | Inr t \<Rightarrow> Inr ((if mode = encodeQueryComponent then CHR '' '' else CHR ''+'') # t))
      else if (mode = encodeHost \<or> mode = encodeZone) \<and> ord c < 0x80 \<and> shouldEscape c encodeHost
        then Inl (InvalidHostError [c])
      else (case unescape s mode of Inl e \<Rightarrow> Inl e | Inr t \<Rightarrow> Inr (c # t)))"

text \<open>\<open>strings.Index\<close> and \<open>strings.LastIndex\<close>: the index of the first (last)
  occurrence of the substring, or \<open>-1\<close>.\<close>

fun Index :: "string \<Rightarrow> string \<Rightarrow> int" where
  "Index [] substr = (if substr = [] then 0 else - 1)"
| "Index (c # t) substr =
     (if HasPrefix (c # t) substr then 0
      else (let i = Index t substr in if i < 0 then - 1 else i + 1))"

fun LastIndex :: "string \<Rightarrow> string \<Rightarrow> int" where
  "LastIndex [] substr = (if substr = [] then 0 else - 1)"
| "LastIndex (c # t) substr =
     (let i = LastIndex t substr in
      if 0 \<le> i then i + 1 else if HasPrefix (c # t) substr then 0 else - 1)"

definition Contains :: "string \<Rightarrow> string \<Rightarrow> bool" where
  "Contains s substr = (0 \<le> Index s substr)"

definition HasSuffix :: "string \<Rightarrow> string \<Rightarrow> bool" where
  "HasSuffix s suffix =
     (length suffix \<le> length s \<and> drop (length s - length suffix) s = suffix)"

text \<open>\<open>strings.Cut\<close>: the parts before and after the first occurrence of the separator,
  and whether it occurs.\<close>

definition Cut :: "string \<Rightarrow> string \<Rightarrow> string \<times> string \<times> bool" where
  "Cut s sep =
     (let i = Index s sep in
      if 0 \<le> i then (take (nat i) s, drop (nat i + length sep) s, True) else (s, [], False))"

text \<open>\<open>strings.ToLower\<close> on the scheme, which \<open>getScheme\<close> leaves ASCII: upper-case
  ASCII letters are mapped to lower case, every other byte is kept.\<close>

definition ToLower :: "string \<Rightarrow> string" where
  "ToLower s = map (\<lambda>c. if isUpper c then char_of (ord c + 32) else c) s"

definition stringContainsCTLByte :: "string \<Rightarrow> bool" where
  "stringContainsCTLByte s = (\<exists>c \<in> set s. ord c < ord CHR '' '' \<or> ord c = 0x7f)"

text \<open>\<open>getScheme\<close>: the loop over the bytes of \<open>rawURL\<close>, at index \<open>i\<close> with the bytes
  from \<open>i\<close> on still to read.\<close>

fun getScheme_loop :: "string \<Rightarrow> nat \<Rightarrow> string \<Rightarrow> url_error + string \<times> string" where
  "getScheme_loop rawURL i [] = Inr ([], rawURL)"
| "getScheme_loop rawURL i (c # cs) =
     (if isLower c \<or> isUpper c then getScheme_loop rawURL (Suc i) cs
      else if isNum c \<or> c = CHR ''+'' \<or> c = CHR ''-'' \<or> c = CHR ''.'' then
        (if i = 0 then Inr ([], rawURL) else getScheme_loop rawURL (Suc i) cs)
      else if c = CHR '':'' then
        (if i = 0 then Inl MissingProtocolScheme
         else Inr (take i rawURL, drop (Suc i) rawURL))
      else Inr ([], rawURL))"

definition getScheme :: "string \<Rightarrow> url_error + string \<times> string" where
  "getScheme rawURL = getScheme_loop rawURL 0 rawURL"

definition validOptionalPort :: "string \<Rightarrow> bool" where
  "validOptionalPort port =
     (case port of
        [] \<Rightarrow> True
      | c # ds \<Rightarrow> c = CHR '':'' \<and> (\<forall>b \<in> set ds. isNum b))"

definition validUserinfo :: "string \<Rightarrow> bool" where
  "validUserinfo s =
     (\<forall>r \<in> set s. isUpper r \<or> isLower r \<or> isNum r \<or> r \<in> set (''-._:~!$&()*+,;=%@'' @ [CHR 0x27]))"

definition parseHost :: "string \<Rightarrow> url_error + string" where
  "parseHost host =
     (if HasPrefix host ''['' then
        (let i = LastIndex host '']'' in
         if i < 0 then Inl MissingBracketInHost
         else
           let colonPort = drop (nat i + 1) host in
           if \<not> validOptionalPort colonPort then Inl (InvalidPort colonPort)
           else
             let zone = Index (take (nat i) host) ''%25'' in
             if 0 \<le> zone then
               (case unescape (take (nat zone) host) encodeHost of
                  Inl e \<Rightarrow> Inl e
                | Inr host1 \<Rightarrow>
                    (case unescape (drop (nat zone) (take (nat i) host)) encodeZone of
                       Inl e \<Rightarrow> Inl e
                     | Inr host2 \<Rightarrow>
                         (case unescape (drop (nat i) host) encodeHost of
                            Inl e \<Rightarrow> Inl e
                          | Inr host3 \<Rightarrow> Inr (host1 @ host2 @ host3))))
             else unescape host encodeHost)
      else
        (let i = LastIndex host '':'' in
         if i \<noteq> - 1 \<and> \<not> validOptionalPort (drop (nat i) host)
         then Inl (InvalidPort (drop (nat i) host))
         else unescape host encodeHost))"

definition parseAuthority :: "string \<Rightarrow> url_error + Userinfo option \<times> string" where
  "parseAuthority authority =
     (let i = LastIndex authority ''@'' in
      case (if i < 0 then parseHost authority else parseHost (drop (nat i + 1) authority)) of
        Inl e \<Rightarrow> Inl e
      | Inr host \<Rightarrow>
          if i < 0 then Inr (None, host)
          else
            let userinfo = take (nat i) authority in
            if \<not> validUserinfo userinfo then Inl InvalidUserinfo
            else if \<not> Contains userinfo '':'' then
              (case unescape userinfo encodeUserPassword of
                 Inl e \<Rightarrow> Inl e
               | Inr u \<Rightarrow> Inr (Some \<lparr>username = u, password = [], passwordSet = False\<rparr>, host))
            else
              (case Cut userinfo '':'' of
                 (username0, password0, found) \<Rightarrow>
                   (case unescape username0 encodeUserPassword of
                      Inl e \<Rightarrow> Inl e
                    | Inr u \<Rightarrow>
                        (case unescape password0 encodeUserPassword of
                           Inl e \<Rightarrow> Inl e
                         | Inr p \<Rightarrow>
                             Inr (Some \<lparr>username = u, password = p, passwordSet = True\<rparr>,
                                  host)))))"

definition setPath :: "URL \<Rightarrow> string \<Rightarrow> url_error + URL" where
  "setPath u p =
     (case unescape p encodePath of
        Inl e \<Rightarrow> Inl e
      | Inr path \<Rightarrow> Inr (u\<lparr>Path := path\<rparr>))"

text \<open>\<open>parse(rawURL, viaRequest)\<close> as \<open>Parse\<close> calls it, with \<open>viaRequest\<close> false.\<close>

definition parse :: "string \<Rightarrow> url_error + URL" where
  "parse rawURL =
     (if stringContainsCTLByte rawURL then Inl InvalidControlCharacter
      else if rawURL = ''*'' then Inr (emptyURL\<lparr>Path := ''*''\<rparr>)
      else
        case getScheme rawURL of
          Inl e \<Rightarrow> Inl e
        | Inr (scheme0, rest0) \<Rightarrow>
            let url0 = emptyURL\<lparr>Scheme := ToLower scheme0\<rparr>;
                force = (HasSuffix rest0 ''?'' \<and> count_list rest0 CHR ''?'' = 1);
                rest = (if force then take (length rest0 - 1) rest0 else fst (Cut rest0 ''?''));
                url = (if force then url0\<lparr>ForceQuery := True\<rparr>
                       else url0\<lparr>RawQuery := fst (snd (Cut rest0 ''?''))\<rparr>)
            in
            if \<not> HasPrefix rest ''/'' \<and> Scheme url \<noteq> [] then Inr (url\<lparr>Opaque := rest\<rparr>)
            else if \<not> HasPrefix rest ''/'' \<and> Contains (fst (Cut rest ''/'')) '':''
              then Inl FirstPathSegmentColon
            else if (Scheme url \<noteq> [] \<or> \<not> HasPrefix rest ''///'') \<and> HasPrefix rest ''//'' then
              (let authority0 = drop 2 rest;
                   i = Index authority0 ''/'';
                   authority = (if 0 \<le> i then take (nat i) authority0 else authority0);
                   rest' = (if 0 \<le> i then drop (nat i) authority0 else [])
               in case parseAuthority authority of
                    Inl e \<Rightarrow> Inl e
                  | Inr (user, host) \<Rightarrow> setPath (url\<lparr>User := user, Host := host\<rparr>) rest')
            else setPath url rest)"

definition Parse :: "string \<Rightarrow> Error + URL" where
  "Parse rawURL =
     (case Cut rawURL ''#'' of
        (u, frag, found) \<Rightarrow>
          (case parse u of
             Inl err \<Rightarrow> Inl (Error ''parse'' u err)
           | Inr url \<Rightarrow>
               if frag = [] then Inr url
               else
                 (case unescape frag encodeFragment of
                    Inl err \<Rightarrow> Inl (Error ''parse'' rawURL err)
                  | Inr f \<Rightarrow> Inr (url\<lparr>Fragment := f\<rparr>))))"

section \<open>The connection resolver\<close>

text \<open>Modelled from the spec: the type \<open>storage.Type\<close> and its constants are declared in
  the package \<open>storage\<close>, which is not among the sources. The spec gives the kind of a
  connector as an enumeration of two values, an object store and a filesystem: they are
  the constants \<open>storage.TypeS3\<close> and \<open>storage.TypeFS\<close> that \<open>parseConn\<close> assigns.\<close>

datatype storage_Type = TypeS3 | TypeFS

record connect =
  Type :: storage_Type
  Bucket :: string
  Path :: string

text \<open>\<open>parseConn\<close>: the error of \<open>url.Parse\<close> is returned as it is; otherwise the
  descriptor follows the scheme. The fields a branch does not assign keep their zero
  value, the empty string.\<close>

definition parseConn :: "string \<Rightarrow> Error + connect" where
  "parseConn cStr =
     (case Parse cStr of
        Inl err \<Rightarrow> Inl err
      | Inr u \<Rightarrow>
          if Scheme u = ''s3''
            then Inr \<lparr>Type = TypeS3, Bucket = Host u, Path = TrimPrefix (URL.Path u) ''/''\<rparr>
          else if Scheme u = ''fs''
            then Inr \<lparr>Type = TypeFS, Bucket = [], Path = TrimPrefix cStr ''fs://''\<rparr>
          else Inr \<lparr>Type = TypeFS, Bucket = [], Path = cStr\<rparr>)"

subsection \<open>Plain endpoint strings\<close>

text \<open>The bytes of a plain host: ASCII letters, digits, and the marks \<open>- . _ ~\<close>.
  A bucket name is made of such bytes.\<close>

definition plainHostByte :: "char \<Rightarrow> bool" where
  "plainHostByte c = (isLower c \<or> isUpper c \<or> isNum c \<or> c \<in> set ''-._~'')"

text \<open>The bytes of a plain path: any byte but the control bytes, which \<open>url.Parse\<close>
  rejects, the percent sign, which starts an escape, and \<open>?\<close> and \<open>#\<close>, which end
  the path.\<close>

definition plainPathByte :: "char \<Rightarrow> bool" where
  "plainPathByte c =
     (\<not> (ord c < ord CHR '' '' \<or> ord c = 0x7f) \<and> c \<noteq> CHR ''%'' \<and> c \<noteq> CHR ''?'' \<and> c \<noteq> CHR ''#'')"


subsection \<open>Rates of digits and a unit\<close>

text \<open>The grammar of a rate in the words of the spec: the number that a run of decimal
  digits denotes, and the multiplier of a unit letter (\<open>K\<close> is 1024, \<open>M\<close> is
  \<open>1024\<^sup>2\<close>, \<open>G\<close> is \<open>1024\<^sup>3\<close>, in either case). They state what the parser computes
  on such input; the parser itself is \<open>parseBandwith\<close> above.\<close>

definition decimal :: "string \<Rightarrow> nat" where
  "decimal ds = foldl (\<lambda>n c. n * 10 + (ord c - ord CHR ''0'')) 0 ds"

definition unitMultiplier :: "char \<Rightarrow> 64 word" where
  "unitMultiplier u =
     (if u = CHR ''k'' \<or> u = CHR ''K'' then 1024
      else if u = CHR ''m'' \<or> u = CHR ''M'' then 1024 * 1024
      else if u = CHR ''g'' \<or> u = CHR ''G'' then 1024 * 1024 * 1024
      else 1)"

section \<open>Command-line arguments\<close>

text \<open>
  The raw arguments, as \<open>arg.MustParse\<close> leaves them in \<open>rawCli\<close> (the defaults
  overridden by the command line). \<open>uint\<close> and \<open>int64\<close> are 64-bit words.
\<close>

record args =
  Source :: string
  SourceKey :: string
  SourceSecret :: string
  SourceRegion :: string
  SourceEndpoint :: string
  Target :: string
  TargetKey :: string
  TargetSecret :: string
  TargetRegion :: string
  TargetEndpoint :: string
  S3Retry :: "64 word"
  S3RetryInterval :: "64 word"
  S3Acl :: string
  S3StorageClass :: string
  S3KeysPerReq :: "64 word"
  FSFilePerm :: string
  FSDirPerm :: string
  FSDisableXattr :: bool
  FilterExt :: "string list"
  FilterExtNot :: "string list"
  FilterCT :: "string list"
  FilterCTNot :: "string list"
  FilterMtimeAfter :: "64 word"
  FilterMtimeBefore :: "64 word"
  FilterModified :: bool
  Workers :: "64 word"
  Debug :: bool
  SyncLog :: bool
  ShowProgress :: bool
  OnFail :: string
  DisableHTTP2 :: bool
  ListBuffer :: "64 word"
  RateLimitObjPerSec :: "64 word"
  RateLimitBandwidth :: string

text \<open>The defaults that \<open>GetCliArgs\<close> sets in \<open>rawCli\<close> before \<open>arg.MustParse\<close>
  reads the command line; the fields it does not set have their zero value.\<close>

definition defaults :: args where
  "defaults =
     \<lparr>Source = [], SourceKey = [], SourceSecret = [], SourceRegion = ''us-east-1'',
      SourceEndpoint = [],
      Target = [], TargetKey = [], TargetSecret = [], TargetRegion = ''us-east-1'',
      TargetEndpoint = [],
      S3Retry = 0, S3RetryInterval = 0, S3Acl = ''private'', S3StorageClass = [],
      S3KeysPerReq = 1000,
      FSFilePerm = ''0644'', FSDirPerm = ''0755'', FSDisableXattr = False,
      FilterExt = [], FilterExtNot = [], FilterCT = [], FilterCTNot = [],
      FilterMtimeAfter = 0, FilterMtimeBefore = 0, FilterModified = False,
      Workers = 16, Debug = False, SyncLog = False, ShowProgress = False,
      OnFail = ''fatal'', DisableHTTP2 = False, ListBuffer = 1000,
      RateLimitObjPerSec = 0, RateLimitBandwidth = []\<rparr>"

datatype onFailAction = onFailFatal | onFailSkip | onFailSkipMissing

text \<open>The parsed arguments: the raw ones embedded, and the derived fields, which have
  the names of raw fields and hide them. \<open>time.Duration\<close> is a 64-bit count of
  nanoseconds, \<open>os.FileMode\<close> a 32-bit word.\<close>

record argsParsed =
  args :: args
  Source :: connect
  Target :: connect
  S3RetryInterval :: "64 word"
  OnFail :: onFailAction
  FSFilePerm :: "32 word"
  FSDirPerm :: "32 word"
  RateLimitBandwidth :: "64 word"

text \<open>What the process reads and writes besides its arguments: whether standard output
  is a terminal (\<open>isatty.IsTerminal(os.Stdout.Fd())\<close>) and the environment variable
  \<open>GODEBUG\<close> (empty when unset).\<close>

record environ =
  IsTerminal :: bool
  GODEBUG :: string

text \<open>
  How \<open>GetCliArgs\<close> ends: \<open>p.Fail\<close> prints the message with the usage and exits the
  process; a failed \<open>parseConn\<close> returns its error; otherwise the parsed arguments are
  returned with a nil error.
\<close>

datatype outcome = Fail string | Err Error | Ok argsParsed

text \<open>The values of \<open>S3Acl\<close> that the first \<open>switch\<close> lets pass; every other value
  reaches its \<open>default\<close> case.\<close>

definition acl_values :: "string list" where
  "acl_values = [[], ''private'', ''public-read'', ''public-read-write'', ''aws-exec-read'',
     ''authenticated-read'', ''bucket-owner-read'', ''bucket-owner-full-control'']"

text \<open>The two messages that hold a quoted list (the byte \<open>0x22\<close> is the double quote).\<close>

definition acl_message :: string where
  "acl_message = ''--acl must be one of '' @ [CHR 0x22]
     @ ''private, public-read, public-read-write, aws-exec-read, authenticated-read, ''
     @ ''bucket-owner-read, bucket-owner-full-control'' @ [CHR 0x22]"

definition onfail_message :: string where
  "onfail_message = ''--on-fail must be one of '' @ [CHR 0x22]
     @ ''fatal, skip, skipmissing'' @ [CHR 0x22]"

definition Second :: "64 word" where
  "Second = 1000000000"

definition GetCliArgs :: "(rune \<Rightarrow> bool) \<Rightarrow> environ \<Rightarrow> args \<Rightarrow> outcome \<times> environ" where
  "GetCliArgs Digit env rawCli =
     (if S3Acl rawCli \<notin> set acl_values
      then (Fail acl_message, env)
      else
        case (if args.OnFail rawCli = ''fatal'' then Some onFailFatal
              else if args.OnFail rawCli = ''skip'' then Some onFailSkip
              else if args.OnFail rawCli = ''skipmissing'' then Some onFailSkipMissing
              else None) of
          None \<Rightarrow> (Fail onfail_message, env)
        | Some onFail \<Rightarrow>
            (case parseBandwith Digit (args.RateLimitBandwidth rawCli) of
               (rate, ok) \<Rightarrow>
                 if \<not> ok then (Fail ''Invalid value of (--ratelimit-bandwidth) arg'', env)
                 else
                   (case parseConn (args.Source rawCli) of
                      Inl err \<Rightarrow> (Err err, env)
                    | Inr source \<Rightarrow>
                        (case parseConn (args.Target rawCli) of
                           Inl err \<Rightarrow> (Err err, env)
                         | Inr target \<Rightarrow>
                             if ShowProgress rawCli \<and> \<not> IsTerminal env
                             then (Fail ''Progress (--sync-progress) require tty'', env)
                             else
                               (case ParseUint (args.FSFilePerm rawCli) 8 32 of
                                  Inl e \<Rightarrow> (Fail ''Failed to parse arg --fs-file-perm'', env)
                                | Inr filePerm \<Rightarrow>
                                    (case ParseUint (args.FSDirPerm rawCli) 8 32 of
                                       Inl e \<Rightarrow> (Fail ''Failed to parse arg --fs-dir-perm'', env)
                                     | Inr dirPerm \<Rightarrow>
                                         let env' = (if DisableHTTP2 rawCli
                                                     then env\<lparr>GODEBUG := GODEBUG env @ ''http2client=0''\<rparr>
                                                     else env)
                                         in
                                         if FilterModified rawCli \<and> FSDisableXattr rawCli
                                         then (Fail ''Filter modified files (--filter-modified) required xattr'', env')
                                         else
                                           (Ok \<lparr>args = rawCli,
                                                Source = source,
                                                Target = target,
                                                S3RetryInterval = args.S3RetryInterval rawCli * Second,
                                                OnFail = onFail,
                                                FSFilePerm = word_of_nat filePerm,
                                                FSDirPerm = word_of_nat dirPerm,
                                                RateLimitBandwidth = rate\<rparr>, env')))))))"

section \<open>Termination of the backward trim\<close>

lemma lastRuneStart_le: "lastRuneStart s lim k \<le> int k"
  by (induction k) auto

lemma lastRuneIndex_less:
  assumes "s \<noteq> []"
  shows "lastRuneIndex s < length s"
proof (cases "length s - 1 = 0")
  case True
  with assms show ?thesis by (simp add: lastRuneIndex_def)
next
  case False
  then have "int (length s - 2) < int (length s)" by arith
  with lastRuneStart_le [of s "length s - 4" "length s - 2"]
  have "lastRuneStart s (length s - 4) (length s - 2) < int (length s)" by linarith
  with False assms show ?thesis
    by (auto simp: lastRuneIndex_def Let_def)
qed

lemma DecodeLastRuneInString_width:
  assumes "s \<noteq> []" and "(r, wid) = DecodeLastRuneInString s"
  shows "1 \<le> wid \<and> wid \<le> length s"
  using assms lastRuneIndex_less [OF assms(1)]
  by (auto simp: DecodeLastRuneInString_def Let_def Suc_le_eq split: if_splits prod.splits)

termination TrimRightFunc
proof (relation "measure (\<lambda>(s, f). length s)")
  show "wf (measure (\<lambda>(s, f). length s))" by simp
next
  fix s :: string and f :: "rune \<Rightarrow> bool" and r wid
  assume "s \<noteq> []" and "(r, wid) = DecodeLastRuneInString s"
  then have "1 \<le> wid \<and> wid \<le> length s" and "0 < length s"
    using DecodeLastRuneInString_width [of s r wid] by simp_all
  then show "((take (length s - wid) s, f), (s, f)) \<in> measure (\<lambda>(s, f). length s)"
    by auto
qed

section \<open>Evaluation of the library functions on ASCII input\<close>

declare runes.simps [simp del] TrimLeftFunc.simps [simp del] TrimRightFunc.simps [simp del]

lemma DecodeRuneInString_ascii:
  "ord c < 0x80 \<Longrightarrow> DecodeRuneInString (c # s) = (ord c, 1)"
  by (simp add: DecodeRuneInString_def RuneSelf_def)

lemma DecodeLastRuneInString_ascii:
  "ord c < 0x80 \<Longrightarrow> DecodeLastRuneInString (s @ [c]) = (ord c, 1)"
  by (simp add: DecodeLastRuneInString_def RuneSelf_def)

lemma runes_Nil: "runes [] = []"
  by (simp add: runes.simps)

lemma runes_ascii: "ord c < 0x80 \<Longrightarrow> runes (c # s) = ord c # runes s"
  by (subst runes.simps) (simp add: DecodeRuneInString_ascii)

lemma TrimLeftFunc_Nil: "TrimLeftFunc [] f = []"
  by (simp add: TrimLeftFunc.simps)

lemma TrimLeftFunc_ascii:
  "ord c < 0x80 \<Longrightarrow>
   TrimLeftFunc (c # s) f = (if f (ord c) then TrimLeftFunc s f else c # s)"
  by (subst TrimLeftFunc.simps) (simp add: DecodeRuneInString_ascii)

lemma TrimRightFunc_Nil: "TrimRightFunc [] f = []"
  by (simp add: TrimRightFunc.simps)

lemma TrimRightFunc_ascii:
  "ord c < 0x80 \<Longrightarrow>
   TrimRightFunc (s @ [c]) f = (if f (ord c) then TrimRightFunc s f else s @ [c])"
  by (subst TrimRightFunc.simps) (simp add: DecodeLastRuneInString_ascii)

lemma TrimRightFunc_ascii_last:
  "s \<noteq> [] \<Longrightarrow> ord (last s) < 0x80 \<Longrightarrow>
   TrimRightFunc s f = (if f (ord (last s)) then TrimRightFunc (butlast s) f else s)"
  using TrimRightFunc_ascii [of "last s" "butlast s" f] by simp

lemmas parseBandwith_eval =
  parseBandwith_def TrimSpace_def TrimFunc_def TrimLeftFunc_Nil TrimLeftFunc_ascii
  TrimRightFunc_Nil TrimRightFunc_ascii_last runes_Nil runes_ascii IsSpace_def IsDigit_def
  MaxLatin1_def string_of_rune_def Atoi_def ParseInt10_def ParseUint_def digitVal_def
  Let_def char_of_eq_iff

section \<open>The bandwidth parser: properties\<close>

lemma TrimLeftFunc_all:
  "list_all f (runes s) \<Longrightarrow> TrimLeftFunc s f = []"
proof (induction s rule: runes.induct)
  case (1 s)
  show ?case
  proof (cases "s = []")
    case True
    then show ?thesis by (simp add: TrimLeftFunc_Nil)
  next
    case False
    obtain r wid where d: "DecodeRuneInString s = (r, wid)"
      by (cases "DecodeRuneInString s")
    from False d have rs: "runes s = r # runes (drop wid s)"
      by (subst runes.simps) simp
    with "1.prems" have fr: "f r" and "list_all f (runes (drop wid s))" by simp_all
    with "1.IH" [OF False d [symmetric]] have "TrimLeftFunc (drop wid s) f = []" by simp
    with False d fr show ?thesis
      by (subst TrimLeftFunc.simps) simp
  qed
qed

text \<open>
  C4. The bandwidth parser on the test vectors: the empty string is \<open>(0, true)\<close>,
  \<open>"100"\<close> is \<open>(100, true)\<close>, \<open>"10K"\<close> is \<open>(10240, true)\<close>, \<open>"1M"\<close> is
  \<open>(1048576, true)\<close>, \<open>"2G"\<close> is \<open>(2147483648, true)\<close>, and \<open>"10X"\<close> fails,
  whatever the digit table of the toolchain.
\<close>

theorem parseBandwith_vectors:
  "parseBandwith Digit [] = (0, True)
   \<and> parseBandwith Digit ''100'' = (100, True)
   \<and> parseBandwith Digit ''10K'' = (10240, True)
   \<and> parseBandwith Digit ''1M'' = (1048576, True)
   \<and> parseBandwith Digit ''2G'' = (2147483648, True)
   \<and> snd (parseBandwith Digit ''10X'') = False"
proof -
  have v0: "parseBandwith Digit [] = (0, True)"
    by (simp add: parseBandwith_def)
  have v1: "parseBandwith Digit ''100'' = (100, True)"
    by (simp add: parseBandwith_eval)
  have v2: "parseBandwith Digit ''10K'' = (10240, True)"
    by (simp add: parseBandwith_eval)
  have v3: "parseBandwith Digit ''1M'' = (1048576, True)"
    by (simp add: parseBandwith_eval)
  have v4: "parseBandwith Digit ''2G'' = (2147483648, True)"
    by (simp add: parseBandwith_eval)
  have v5: "snd (parseBandwith Digit ''10X'') = False"
    by (simp add: parseBandwith_eval)
  from v0 v1 v2 v3 v4 v5 show ?thesis by blast
qed

text \<open>
  C5, as the claim states it, fails: the string of two spaces is not empty, so the
  guard for the empty string does not apply; trimming leaves no digits, and
  \<open>strconv.Atoi\<close> rejects the empty digit string.
\<close>

theorem parseBandwith_blank_counterexample:
  "\<forall>Digit. parseBandwith Digit ''  '' = (0, False)"
  by (simp add: parseBandwith_eval)

text \<open>
  C5, amended. The empty string gives \<open>(0, true)\<close>, the unlimited rate. Every non-empty
  string that consists of whitespace runes only gives \<open>(0, false)\<close>: failure.
\<close>

theorem parseBandwith_blank:
  "parseBandwith Digit [] = (0, True)
   \<and> (s \<noteq> [] \<and> list_all IsSpace (runes s) \<longrightarrow> parseBandwith Digit s = (0, False))"
proof -
  have "parseBandwith Digit s = (0, False)" if "s \<noteq> []" and "list_all IsSpace (runes s)"
  proof -
    from that(2) have "TrimSpace s = []"
      by (simp add: TrimSpace_def TrimFunc_def TrimLeftFunc_all TrimRightFunc_Nil)
    with that(1) show ?thesis
      by (simp add: parseBandwith_def runes_Nil Atoi_def ParseInt10_def)
  qed
  then show ?thesis by (simp add: parseBandwith_def)
qed

theorem parseBandwith_blank_witness:
  "[CHR 0x09, CHR '' ''] \<noteq> [] \<and> list_all IsSpace (runes [CHR 0x09, CHR '' ''])
   \<and> (\<forall>Digit. parseBandwith Digit [CHR 0x09, CHR '' ''] = (0, False))"
proof -
  have h: "[CHR 0x09, CHR '' ''] \<noteq> [] \<and> list_all IsSpace (runes [CHR 0x09, CHR '' ''])"
    by (simp add: runes_Nil runes_ascii IsSpace_def MaxLatin1_def)
  with parseBandwith_blank [of _ "[CHR 0x09, CHR '' '']"] show ?thesis by blast
qed

lemma isNum_ord: "isNum c \<Longrightarrow> 48 \<le> ord c \<and> ord c \<le> 57"
  by (simp add: isNum_def)

lemma runes_ascii_all: "\<forall>c \<in> set s. ord c < 0x80 \<Longrightarrow> runes s = map ord s"
  by (induction s) (simp_all add: runes_Nil runes_ascii)

lemma string_of_rune_ord: "ord c < 0x80 \<Longrightarrow> string_of_rune (ord c) = [c]"
  by (simp add: string_of_rune_def)

lemma loop_digits:
  "\<forall>c \<in> set ds. isNum c \<Longrightarrow>
   parseBandwith_loop Digit (map ord ds @ rs) acc m = parseBandwith_loop Digit rs (acc @ ds) m"
proof (induction ds arbitrary: acc)
  case Nil
  then show ?case by simp
next
  case (Cons c ds)
  then have c: "48 \<le> ord c \<and> ord c \<le> 57" by (simp add: isNum_ord)
  then have "IsDigit Digit (ord c)" and "string_of_rune (ord c) = [c]"
    by (simp_all add: IsDigit_def MaxLatin1_def string_of_rune_ord)
  with Cons show ?case by simp
qed

lemma loop_unit:
  assumes "u \<in> set ''kKmMgG''"
  shows "parseBandwith_loop Digit [ord u] acc m = Some (acc, unitMultiplier u)"
proof -
  from assms have "u = CHR ''k'' \<or> u = CHR ''K'' \<or> u = CHR ''m'' \<or> u = CHR ''M''
      \<or> u = CHR ''g'' \<or> u = CHR ''G''" by simp
  then show ?thesis
    by (elim disjE) (simp_all add: IsDigit_def IsSpace_def MaxLatin1_def unitMultiplier_def)
qed

lemma foldl_decimal_ge: "n \<le> foldl (\<lambda>n c. n * 10 + (ord c - ord CHR ''0'')) n ds"
proof (induction ds arbitrary: n)
  case Nil
  show ?case by simp
next
  case (Cons c ds)
  have "n \<le> n * 10 + (ord c - ord CHR ''0'')" by simp
  also have "\<dots> \<le> foldl (\<lambda>n c. n * 10 + (ord c - ord CHR ''0'')) (n * 10 + (ord c - ord CHR ''0'')) ds"
    by (rule Cons.IH)
  finally show ?case by simp
qed

lemma ParseUint_loop_digits:
  assumes "\<forall>c \<in> set ds. isNum c"
    and "foldl (\<lambda>n c. n * 10 + (ord c - ord CHR ''0'')) n ds \<le> maxVal" and "maxVal < 2 ^ 64"
  shows "ParseUint_loop ds 10 maxVal n = Inr (foldl (\<lambda>n c. n * 10 + (ord c - ord CHR ''0'')) n ds)"
  using assms
proof (induction ds arbitrary: n)
  case Nil
  show ?case by simp
next
  case (Cons c ds)
  let ?d = "ord c - ord CHR ''0''"
  from Cons.prems(1) have c: "48 \<le> ord c \<and> ord c \<le> 57" by (simp add: isNum_ord)
  then have dv: "digitVal c = Some ?d"
    by (simp add: digitVal_def)
  from c have d: "?d < 10" by simp linarith
  have "n * 10 + ?d \<le> foldl (\<lambda>n c. n * 10 + (ord c - ord CHR ''0'')) (n * 10 + ?d) ds"
    by (rule foldl_decimal_ge)
  with Cons.prems(2) have le: "n * 10 + ?d \<le> maxVal" by simp
  with Cons.prems(3) have lt: "n * 10 + ?d < 2 ^ 64" by simp
  then have "n < (2 ^ 64 - 1) div 10 + 1" by simp
  with dv d le lt Cons.prems Cons.IH [of "n * 10 + ?d"] show ?case
    by (simp add: Let_def)
qed

lemma Atoi_digits:
  assumes "ds \<noteq> []" and "\<forall>c \<in> set ds. isNum c" and "decimal ds < 2 ^ 63"
  shows "Atoi ds = Inr (word_of_nat (decimal ds))"
proof -
  from assms(1,2) have "isNum (hd ds)" by simp
  then have "48 \<le> ord (hd ds)" by (simp add: isNum_def)
  then have h: "hd ds \<noteq> CHR ''+''" "hd ds \<noteq> CHR ''-''"
    by auto
  have "ParseUint_loop ds 10 (2 ^ 64 - 1) 0 = Inr (decimal ds)"
    unfolding decimal_def
    using assms(2,3) by (intro ParseUint_loop_digits) (simp_all add: decimal_def)
  with assms h show ?thesis
    by (simp add: Atoi_def ParseInt10_def ParseUint_def Let_def)
qed

lemma TrimSpace_id:
  assumes "s \<noteq> []" and "ord (hd s) < 0x80" and "\<not> IsSpace (ord (hd s))"
    and "ord (last s) < 0x80" and "\<not> IsSpace (ord (last s))"
  shows "TrimSpace s = s"
proof -
  from assms(1) obtain c t where s: "s = c # t" by (cases s) auto
  with assms(2,3) have "TrimLeftFunc s IsSpace = s"
    by (simp add: TrimLeftFunc_ascii)
  with assms(1,4,5) show ?thesis
    by (simp add: TrimSpace_def TrimFunc_def TrimRightFunc_ascii_last)
qed

lemma digits_unit_scaled:
  assumes "ds \<noteq> []" and "\<forall>c \<in> set ds. isNum c" and "decimal ds < 2 ^ 63"
    and "u \<in> set ''kKmMgG''"
  shows "parseBandwith Digit (ds @ [u]) = (word_of_nat (decimal ds) * unitMultiplier u, True)"
proof -
  let ?s = "ds @ [u]"
  from assms(1,2) have "isNum (hd ds)" by simp
  then have "ord (hd ds) < 0x80 \<and> \<not> IsSpace (ord (hd ds))"
    by (simp add: isNum_def IsSpace_def MaxLatin1_def)
  then have hd: "ord (hd ?s) < 0x80" "\<not> IsSpace (ord (hd ?s))"
    using assms(1) by simp_all
  from assms(4) have "u = CHR ''k'' \<or> u = CHR ''K'' \<or> u = CHR ''m'' \<or> u = CHR ''M''
      \<or> u = CHR ''g'' \<or> u = CHR ''G''" by simp
  then have lst0: "ord u < 0x80 \<and> \<not> IsSpace (ord u)"
    by (elim disjE) (simp_all add: IsSpace_def MaxLatin1_def)
  then have lst: "ord (last ?s) < 0x80" "\<not> IsSpace (ord (last ?s))"
    by simp_all
  have t: "TrimSpace ?s = ?s"
    using hd lst by (intro TrimSpace_id) simp_all
  have "\<forall>c \<in> set ds. ord c < 0x80"
    using assms(2) isNum_ord by fastforce
  moreover from lst0 have "ord u < 0x80" by simp
  ultimately have r: "runes ?s = map ord ds @ [ord u]"
    by (simp add: runes_ascii_all)
  have l: "parseBandwith_loop Digit (map ord ds @ [ord u]) [] 1 = Some (ds, unitMultiplier u)"
    using loop_digits [OF assms(2), of Digit "[ord u]" "[]" 1] loop_unit [OF assms(4)]
    by simp
  from t r l Atoi_digits [OF assms(1-3)] show ?thesis
    by (simp add: parseBandwith_def)
qed

text \<open>
  C10. The final scaling is an unchecked 64-bit multiplication. On every input of decimal
  digits followed by a unit letter, the digits denoting a number within the range of
  \<open>int\<close>, the parser returns \<open>ok = true\<close> and the product of that number and the
  multiplier as a 64-bit word: whenever the mathematical product is beyond the range of
  \<open>int\<close>, the rate returned is not that product. On \<open>"9000000000000000000K"\<close> it is
  negative.
\<close>

theorem parseBandwith_overflow:
  "ds \<noteq> [] \<and> (\<forall>c \<in> set ds. isNum c) \<and> decimal ds < 2 ^ 63 \<and> u \<in> set ''kKmMgG'' \<longrightarrow>
     parseBandwith Digit (ds @ [u]) = (word_of_nat (decimal ds) * unitMultiplier u, True)
     \<and> (2 ^ 63 \<le> int (decimal ds) * uint (unitMultiplier u) \<longrightarrow>
          sint (fst (parseBandwith Digit (ds @ [u]))) \<noteq> int (decimal ds) * uint (unitMultiplier u))"
proof (intro impI conjI)
  assume h: "ds \<noteq> [] \<and> (\<forall>c \<in> set ds. isNum c) \<and> decimal ds < 2 ^ 63 \<and> u \<in> set ''kKmMgG''"
  then show v: "parseBandwith Digit (ds @ [u]) = (word_of_nat (decimal ds) * unitMultiplier u, True)"
    by (intro digits_unit_scaled) simp_all
  assume big: "2 ^ 63 \<le> int (decimal ds) * uint (unitMultiplier u)"
  have "sint (word_of_nat (decimal ds) * unitMultiplier u) < 2 ^ (LENGTH(64) - 1)"
    by (rule sint_lt)
  with big v show "sint (fst (parseBandwith Digit (ds @ [u]))) \<noteq> int (decimal ds) * uint (unitMultiplier u)"
    by simp
qed

theorem parseBandwith_overflow_witness:
  "\<forall>Digit.
     parseBandwith Digit ''9000000000000000000K'' = (9000000000000000000 * 1024, True)
     \<and> sint (fst (parseBandwith Digit ''9000000000000000000K'')) = - 7372036854775808000
     \<and> sint (fst (parseBandwith Digit ''9000000000000000000K'')) \<noteq> 9000000000000000000 * 1024"
proof
  fix Digit
  have d: "decimal ''9000000000000000000'' = 9000000000000000000"
    by (simp add: decimal_def)
  have m: "unitMultiplier CHR ''K'' = 1024"
    by (simp add: unitMultiplier_def)
  have h: "''9000000000000000000'' \<noteq> [] \<and> (\<forall>c \<in> set ''9000000000000000000''. isNum c)
      \<and> decimal ''9000000000000000000'' < 2 ^ 63 \<and> CHR ''K'' \<in> set ''kKmMgG''"
    by (simp add: d isNum_def)
  from parseBandwith_overflow [where ds = "''9000000000000000000''" and u = "CHR ''K''"
      and Digit = Digit, THEN mp, OF h, THEN conjunct1]
  have v: "parseBandwith Digit ''9000000000000000000K'' = (9000000000000000000 * 1024, True)"
    by (simp add: d m)
  have w: "sint (9000000000000000000 * 1024 :: 64 word) = - 7372036854775808000"
    by simp
  from v w show "parseBandwith Digit ''9000000000000000000K'' = (9000000000000000000 * 1024, True)
     \<and> sint (fst (parseBandwith Digit ''9000000000000000000K'')) = - 7372036854775808000
     \<and> sint (fst (parseBandwith Digit ''9000000000000000000K'')) \<noteq> 9000000000000000000 * 1024"
    by simp
qed

section \<open>Facts about \<open>url.Parse\<close>\<close>

lemma Index_notin: "c \<notin> set s \<Longrightarrow> Index s [c] = - 1"
  by (induction s) (auto simp: HasPrefix_def)

lemma Index_first: "c \<notin> set a \<Longrightarrow> Index (a @ c # b) [c] = int (length a)"
  by (induction a) (auto simp: HasPrefix_def Let_def)

lemma LastIndex_notin: "c \<notin> set s \<Longrightarrow> LastIndex s [c] = - 1"
  by (induction s) (auto simp: HasPrefix_def Let_def)

lemma Cut_notin: "c \<notin> set s \<Longrightarrow> Cut s [c] = (s, [], False)"
  by (simp add: Cut_def Index_notin)

lemma HasSuffix_notin: "c \<notin> set s \<Longrightarrow> \<not> HasSuffix s [c]"
proof
  assume n: "c \<notin> set s" and h: "HasSuffix s [c]"
  then have "drop (length s - 1) s = [c]" by (simp add: HasSuffix_def)
  then have "c \<in> set (drop (length s - 1) s)" by simp
  with n show False by (auto dest: in_set_dropD)
qed

lemma unescape_plain:
  "\<forall>c \<in> set s. c \<noteq> CHR ''%'' \<Longrightarrow> mode \<noteq> encodeHost \<Longrightarrow> mode \<noteq> encodeZone \<Longrightarrow>
   mode \<noteq> encodeQueryComponent \<Longrightarrow> unescape s mode = Inr s"
  by (induction s) simp_all

lemma plainHostByte_shouldEscape: "plainHostByte c \<Longrightarrow> \<not> shouldEscape c encodeHost"
  by (auto simp: plainHostByte_def shouldEscape_def)

lemma plainHostByte_neq:
  assumes "plainHostByte c"
  shows "c \<noteq> CHR ''%''" "c \<noteq> CHR ''/''" "c \<noteq> CHR ''@''" "c \<noteq> CHR '':''" "c \<noteq> CHR ''[''"
    "c \<noteq> CHR ''#''" "c \<noteq> CHR ''?''" "c \<noteq> CHR ''+''"
  using assms by (auto simp: plainHostByte_def isLower_def isUpper_def isNum_def)

lemma plainHostByte_special:
  "\<not> plainHostByte CHR ''%''" "\<not> plainHostByte CHR ''/''" "\<not> plainHostByte CHR ''@''"
  "\<not> plainHostByte CHR '':''" "\<not> plainHostByte CHR ''[''" "\<not> plainHostByte CHR ''#''"
  "\<not> plainHostByte CHR ''?''" "\<not> plainHostByte CHR ''+''"
  by (simp_all add: plainHostByte_def isLower_def isUpper_def isNum_def)

lemma Ball_notin: "\<forall>c \<in> set s. P c \<Longrightarrow> \<not> P x \<Longrightarrow> x \<notin> set s"
  by auto

lemma plainHostByte_ctl:
  "plainHostByte c \<Longrightarrow> \<not> (ord c < ord CHR '' '' \<or> ord c = 0x7f)"
  by (auto simp: plainHostByte_def isLower_def isUpper_def isNum_def)

lemma unescape_host_plain:
  "\<forall>c \<in> set s. plainHostByte c \<Longrightarrow> unescape s encodeHost = Inr s"
  by (induction s) (simp_all add: plainHostByte_neq plainHostByte_shouldEscape)



lemma HasPrefix_Cons_single: "HasPrefix (x # t) [c] = (x = c)"
  by (simp add: HasPrefix_def)

lemma HasPrefix_Nil_single: "\<not> HasPrefix [] [c]"
  by (simp add: HasPrefix_def)

lemma HasPrefix_notin: "c \<notin> set s \<Longrightarrow> \<not> HasPrefix s [c]"
  by (cases s) (auto simp: HasPrefix_def)

lemma parseHost_plain:
  assumes "\<forall>c \<in> set s. plainHostByte c"
  shows "parseHost s = Inr s"
proof -
  have "CHR '':'' \<notin> set s"
    using assms by (rule Ball_notin) (rule plainHostByte_special)
  moreover have "CHR ''['' \<notin> set s"
    using assms by (rule Ball_notin) (rule plainHostByte_special)
  ultimately have "LastIndex s '':'' = - 1" and "\<not> HasPrefix s ''[''"
    by (simp_all add: LastIndex_notin HasPrefix_notin)
  with assms show ?thesis
    by (simp add: parseHost_def unescape_host_plain)
qed

lemma parseAuthority_plain:
  assumes "\<forall>c \<in> set s. plainHostByte c"
  shows "parseAuthority s = Inr (None, s)"
proof -
  have "CHR ''@'' \<notin> set s"
    using assms by (rule Ball_notin) (rule plainHostByte_special)
  then have "LastIndex s ''@'' = - 1" by (simp add: LastIndex_notin)
  with assms show ?thesis by (simp add: parseAuthority_def parseHost_plain)
qed

lemma parse_plain:
  assumes g: "getScheme r = Inr (sch, ''//'' @ bucket @ ''/'' @ path)"
    and sch: "sch \<noteq> []" and r: "\<not> stringContainsCTLByte r" "r \<noteq> ''*''"
    and b: "\<forall>c \<in> set bucket. plainHostByte c" and p: "\<forall>c \<in> set path. plainPathByte c"
  shows "parse r =
         Inr \<lparr>Scheme = ToLower sch, Opaque = [], User = None, Host = bucket,
              Path = CHR ''/'' # path, ForceQuery = False, RawQuery = [], Fragment = []\<rparr>"
proof -
  let ?rest = "''//'' @ bucket @ ''/'' @ path"
  have "CHR ''?'' \<notin> set bucket"
    using b by (rule Ball_notin) (rule plainHostByte_special)
  moreover have "CHR ''?'' \<notin> set path"
    using p by (rule Ball_notin) (simp add: plainPathByte_def)
  ultimately have q: "CHR ''?'' \<notin> set ?rest" by simp
  have cut: "Cut ?rest ''?'' = (?rest, [], False)" and suf: "\<not> HasSuffix ?rest ''?''"
    using q by (rule Cut_notin, rule HasSuffix_notin)
  have sl: "CHR ''/'' \<notin> set bucket"
    using b by (rule Ball_notin) (rule plainHostByte_special)
  then have idx: "Index (bucket @ ''/'' @ path) ''/'' = int (length bucket)"
    using Index_first [of "CHR ''/''" bucket path] by simp
  have pth: "unescape (CHR ''/'' # path) encodePath = Inr (CHR ''/'' # path)"
  proof (rule unescape_plain)
    show "\<forall>c \<in> set (CHR ''/'' # path). c \<noteq> CHR ''%''"
      using p by (simp add: plainPathByte_def)
  qed simp_all
  have low: "ToLower sch \<noteq> []" using sch by (simp add: ToLower_def)
  show ?thesis
    unfolding parse_def
    using r g cut suf idx pth b low
    by (simp add: Let_def HasPrefix_def parseAuthority_plain setPath_def emptyURL_def)
qed

lemma Parse_plain:
  assumes g: "getScheme r = Inr (sch, ''//'' @ bucket @ ''/'' @ path)"
    and sch: "sch \<noteq> []" and r: "\<forall>c \<in> set r. plainHostByte c \<or> plainPathByte c"
    and b: "\<forall>c \<in> set bucket. plainHostByte c" and p: "\<forall>c \<in> set path. plainPathByte c"
  shows "Parse r =
         Inr \<lparr>Scheme = ToLower sch, Opaque = [], User = None, Host = bucket,
              Path = CHR ''/'' # path, ForceQuery = False, RawQuery = [], Fragment = []\<rparr>"
proof -
  have "CHR ''#'' \<notin> set r"
    using r by (rule Ball_notin) (simp add: plainHostByte_special plainPathByte_def)
  then have c: "Cut r ''#'' = (r, [], False)"
    by (rule Cut_notin)
  have "\<not> (ord c < ord CHR '' '' \<or> ord c = 0x7f)" if "c \<in> set r" for c
    using r that plainHostByte_ctl [of c] by (auto simp: plainPathByte_def)
  then have ctl: "\<not> stringContainsCTLByte r"
    unfolding stringContainsCTLByte_def by blast
  have "getScheme ''*'' = Inr ([], ''*'')"
    by (simp add: getScheme_def isLower_def isUpper_def isNum_def)
  with g sch have "r \<noteq> ''*''" by auto
  with c show ?thesis
    unfolding Parse_def using parse_plain [OF g sch ctl _ b p] by simp
qed


lemma setPath_Scheme: "setPath u p = Inr u' \<Longrightarrow> Scheme u' = Scheme u"
  by (auto simp: setPath_def split: sum.splits)

lemma parse_Scheme:
  assumes "parse r = Inr url" and "getScheme r = Inr (sch, rest)" and "r \<noteq> ''*''"
  shows "Scheme url = ToLower sch"
  using assms
  by (auto simp: parse_def Let_def emptyURL_def split: if_splits sum.splits prod.splits
      dest!: setPath_Scheme)


lemma Index_ge: "- 1 \<le> Index s x"
  by (induction s) (auto simp: Let_def)

lemma Index_append_notin:
  "c \<notin> set a \<Longrightarrow>
   Index (a @ s) [c] = (if Index s [c] < 0 then - 1 else int (length a) + Index s [c])"
  using Index_ge [of s "[c]"] by (induction a) (auto simp: HasPrefix_def Let_def)

lemma Cut_fst_append: "c \<notin> set a \<Longrightarrow> fst (Cut (a @ s) [c]) = a @ fst (Cut s [c])"
  by (simp add: Cut_def Index_append_notin Let_def nat_add_distrib)

lemma Parse_fs_Scheme:
  assumes "Parse (''fs://'' @ X) = Inr u"
  shows "Scheme u = ''fs''"
proof -
  obtain u0 frag found where c: "Cut (''fs://'' @ X) ''#'' = (u0, frag, found)"
    by (cases "Cut (''fs://'' @ X) ''#''")
  have "fst (Cut (''fs://'' @ X) ''#'') = ''fs://'' @ fst (Cut X ''#'')"
    by (rule Cut_fst_append) simp
  with c have u0: "u0 = ''fs://'' @ fst (Cut X ''#'')" by simp
  from assms c obtain url where p: "parse u0 = Inr url" and s: "Scheme u = Scheme url"
    by (auto simp: Parse_def split: sum.splits if_splits)
  have g: "getScheme u0 = Inr (''fs'', ''//'' @ fst (Cut X ''#''))"
    unfolding u0 by (simp add: getScheme_def isLower_def isUpper_def isNum_def)
  have "u0 \<noteq> ''*''" unfolding u0 by simp
  from parse_Scheme [OF p g this] s show ?thesis
    by (simp add: ToLower_def isUpper_def)
qed

lemma TrimPrefix_append: "TrimPrefix (a @ s) a = s"
  by (simp add: TrimPrefix_def HasPrefix_def)

lemma fs_resolves_or_fails:
  "parseConn (''fs://'' @ X) =
     (case Parse (''fs://'' @ X) of
        Inl err \<Rightarrow> Inl err
      | Inr u \<Rightarrow> Inr \<lparr>Type = TypeFS, Bucket = [], Path = X\<rparr>)"
proof (cases "Parse (''fs://'' @ X)")
  case (Inl err)
  then show ?thesis by (simp add: parseConn_def)
next
  case (Inr u)
  from Parse_fs_Scheme [OF Inr] have "Scheme u = ''fs''" .
  with Inr show ?thesis
    using TrimPrefix_append [of "''fs://''" X] by (simp add: parseConn_def)
qed

lemma plainPathByte_ctl:
  "plainPathByte c \<Longrightarrow> \<not> (ord c < ord CHR '' '' \<or> ord c = 0x7f)"
  by (simp add: plainPathByte_def)

lemma plainPath_noCTL:
  assumes p: "\<forall>c \<in> set p. plainPathByte c"
  shows "\<forall>c \<in> set p. \<not> (ord c < ord CHR '' '' \<or> ord c = 0x7f)"
  using p plainPathByte_ctl by blast

lemma Parse_bare_path:
  assumes p: "\<forall>c \<in> set p. plainPathByte c" and h: "p = [] \<or> hd p \<noteq> CHR ''/''"
  shows "Parse (CHR ''/'' # p) =
         Inr \<lparr>Scheme = [], Opaque = [], User = None, Host = [], Path = CHR ''/'' # p,
              ForceQuery = False, RawQuery = [], Fragment = []\<rparr>"
proof -
  let ?r = "CHR ''/'' # p"
  have "CHR ''#'' \<notin> set p"
    using p by (rule Ball_notin) (simp add: plainPathByte_def)
  then have "CHR ''#'' \<notin> set ?r" by simp
  then have c: "Cut ?r ''#'' = (?r, [], False)" by (rule Cut_notin)
  have ctl: "\<not> stringContainsCTLByte ?r"
    using plainPath_noCTL [OF p] by (simp add: stringContainsCTLByte_def)
  have g: "getScheme ?r = Inr ([], ?r)"
    by (simp add: getScheme_def isLower_def isUpper_def isNum_def)
  have "CHR ''?'' \<notin> set p"
    using p by (rule Ball_notin) (simp add: plainPathByte_def)
  then have q: "CHR ''?'' \<notin> set ?r" by simp
  have cut: "Cut ?r ''?'' = (?r, [], False)" and suf: "\<not> HasSuffix ?r ''?''"
    using q by (rule Cut_notin, rule HasSuffix_notin)
  have pth: "unescape ?r encodePath = Inr ?r"
  proof (rule unescape_plain)
    show "\<forall>c \<in> set ?r. c \<noteq> CHR ''%''"
      using p by (simp add: plainPathByte_def)
  qed simp_all
  have nn: "\<not> HasPrefix ?r ''//''"
    using h by (cases p) (auto simp: HasPrefix_def)
  have p1: "HasPrefix ?r ''/''" by (simp add: HasPrefix_def)
  have "parse ?r = Inr \<lparr>Scheme = [], Opaque = [], User = None, Host = [], Path = ?r,
              ForceQuery = False, RawQuery = [], Fragment = []\<rparr>"
    unfolding parse_def
    using ctl g cut suf pth nn p1
    by (simp add: Let_def ToLower_def setPath_def emptyURL_def)
  with c show ?thesis
    unfolding Parse_def by simp
qed

lemma Parse_s3_Scheme:
  assumes "Parse (''s3://'' @ X) = Inr u"
  shows "Scheme u = ''s3''"
proof -
  obtain u0 frag found where c: "Cut (''s3://'' @ X) ''#'' = (u0, frag, found)"
    by (cases "Cut (''s3://'' @ X) ''#''")
  have "fst (Cut (''s3://'' @ X) ''#'') = ''s3://'' @ fst (Cut X ''#'')"
    by (rule Cut_fst_append) simp
  with c have u0: "u0 = ''s3://'' @ fst (Cut X ''#'')" by simp
  from assms c obtain url where p: "parse u0 = Inr url" and s: "Scheme u = Scheme url"
    by (auto simp: Parse_def split: sum.splits if_splits)
  have g: "getScheme u0 = Inr (''s3'', ''//'' @ fst (Cut X ''#''))"
    unfolding u0 by (simp add: getScheme_def isLower_def isUpper_def isNum_def)
  have "u0 \<noteq> ''*''" unfolding u0 by simp
  from parse_Scheme [OF p g this] s show ?thesis
    by (simp add: ToLower_def isUpper_def)
qed

lemma s3_resolves_or_fails:
  "parseConn (''s3://'' @ X) =
     (case Parse (''s3://'' @ X) of
        Inl err \<Rightarrow> Inl err
      | Inr u \<Rightarrow> Inr \<lparr>Type = TypeS3, Bucket = Host u, Path = TrimPrefix (URL.Path u) ''/''\<rparr>)"
proof (cases "Parse (''s3://'' @ X)")
  case (Inl err)
  then show ?thesis by (simp add: parseConn_def)
next
  case (Inr u)
  from Parse_s3_Scheme [OF Inr] have "Scheme u = ''s3''" .
  with Inr show ?thesis by (simp add: parseConn_def)
qed

lemma Parse_slash_Scheme:
  assumes "Parse (CHR ''/'' # p) = Inr u"
  shows "Scheme u = []"
proof -
  obtain u0 frag found where c: "Cut (CHR ''/'' # p) ''#'' = (u0, frag, found)"
    by (cases "Cut (CHR ''/'' # p) ''#''")
  have "fst (Cut (''/'' @ p) ''#'') = ''/'' @ fst (Cut p ''#'')"
    by (rule Cut_fst_append) simp
  with c have u0: "u0 = CHR ''/'' # fst (Cut p ''#'')" by simp
  from assms c obtain url where p: "parse u0 = Inr url" and s: "Scheme u = Scheme url"
    by (auto simp: Parse_def split: sum.splits if_splits)
  have g: "getScheme u0 = Inr ([], u0)"
    unfolding u0 by (simp add: getScheme_def isLower_def isUpper_def isNum_def)
  have "u0 \<noteq> ''*''" unfolding u0 by simp
  from parse_Scheme [OF p g this] s show ?thesis
    by (simp add: ToLower_def)
qed

lemma slash_resolves_or_fails:
  "parseConn (CHR ''/'' # p) =
     (case Parse (CHR ''/'' # p) of
        Inl err \<Rightarrow> Inl err
      | Inr u \<Rightarrow> Inr \<lparr>Type = TypeFS, Bucket = [], Path = CHR ''/'' # p\<rparr>)"
proof (cases "Parse (CHR ''/'' # p)")
  case (Inl err)
  then show ?thesis by (simp add: parseConn_def)
next
  case (Inr u)
  from Parse_slash_Scheme [OF Inr] have "Scheme u = []" .
  with Inr show ?thesis by (simp add: parseConn_def)
qed

lemmas url_eval =
  parseConn_def Parse_def parse_def Cut_def getScheme_def setPath_def parseAuthority_def
  parseHost_def validOptionalPort_def validUserinfo_def stringContainsCTLByte_def ToLower_def
  HasPrefix_def HasSuffix_def Contains_def TrimPrefix_def emptyURL_def
  isLower_def isUpper_def isNum_def ishex_def unhex_def shouldEscape_def Let_def

lemma plain_resolves:
  assumes g: "getScheme r = Inr (sch, ''//'' @ bucket @ ''/'' @ path)"
    and sch: "sch \<noteq> []" and r: "\<forall>c \<in> set r. plainHostByte c \<or> plainPathByte c"
    and b: "\<forall>c \<in> set bucket. plainHostByte c" and p: "\<forall>c \<in> set path. plainPathByte c"
  shows "parseConn r =
         (if ToLower sch = ''s3'' then Inr \<lparr>Type = TypeS3, Bucket = bucket, Path = path\<rparr>
          else if ToLower sch = ''fs''
            then Inr \<lparr>Type = TypeFS, Bucket = [], Path = TrimPrefix r ''fs://''\<rparr>
          else Inr \<lparr>Type = TypeFS, Bucket = [], Path = r\<rparr>)"
  unfolding parseConn_def Parse_plain [OF g sch r b p]
  by (simp add: TrimPrefix_def HasPrefix_def)

lemma plain_s3_resolves:
  assumes b: "\<forall>c \<in> set bucket. plainHostByte c" and p: "\<forall>c \<in> set path. plainPathByte c"
  shows "parseConn (''s3://'' @ bucket @ ''/'' @ path) =
         Inr \<lparr>Type = TypeS3, Bucket = bucket, Path = path\<rparr>"
proof -
  let ?r = "''s3://'' @ bucket @ ''/'' @ path"
  have g: "getScheme ?r = Inr (''s3'', ''//'' @ bucket @ ''/'' @ path)"
    by (simp add: getScheme_def isLower_def isUpper_def isNum_def)
  have k: "plainHostByte CHR ''s''" "plainHostByte CHR ''3''" "plainPathByte CHR '':''"
    "plainPathByte CHR ''/''"
    by (simp_all add: plainHostByte_def plainPathByte_def isLower_def isUpper_def isNum_def)
  have r: "\<forall>c \<in> set ?r. plainHostByte c \<or> plainPathByte c"
    using b p k by auto
  from plain_resolves [OF g _ r b p] show ?thesis
    by (simp add: ToLower_def isUpper_def)
qed

lemma plain_fs_resolves:
  assumes p: "\<forall>c \<in> set p. plainPathByte c"
  shows "parseConn (''fs://'' @ CHR ''/'' # p) =
         Inr \<lparr>Type = TypeFS, Bucket = [], Path = CHR ''/'' # p\<rparr>"
proof -
  let ?r = "''fs://'' @ [] @ ''/'' @ p"
  have g: "getScheme ?r = Inr (''fs'', ''//'' @ [] @ ''/'' @ p)"
    by (simp add: getScheme_def isLower_def isUpper_def isNum_def)
  have k: "plainHostByte CHR ''f''" "plainHostByte CHR ''s''" "plainPathByte CHR '':''"
    "plainPathByte CHR ''/''"
    by (simp_all add: plainHostByte_def plainPathByte_def isLower_def isUpper_def isNum_def)
  have r: "\<forall>c \<in> set ?r. plainHostByte c \<or> plainPathByte c"
    using p k by auto
  have b: "\<forall>c \<in> set []. plainHostByte c" by simp
  from plain_resolves [OF g _ r b p] show ?thesis
    by (simp add: ToLower_def isUpper_def TrimPrefix_def HasPrefix_def)
qed

section \<open>The connection resolver: properties\<close>

text \<open>
  C1, as the claim states it, fails on two counts. A string of the form
  \<open>s3://bucket/path\<close> that \<open>url.Parse\<close> rejects does not resolve: \<open>parseConn\<close> returns
  the error, as for the path \<open>100%\<close>, whose percent sign is not an escape. And the bucket
  is the host of the URI, not its authority: for the authority \<open>user@bucket\<close> it is
  \<open>bucket\<close>.
\<close>

theorem parseConn_s3_counterexample:
  "parseConn ''s3://bucket/100%'' =
     Inl (Error ''parse'' ''s3://bucket/100%'' (EscapeError ''%''))
   \<and> parseConn ''s3://user@bucket/path'' =
       Inr \<lparr>Type = TypeS3, Bucket = ''bucket'', Path = ''path''\<rparr>"
  by (simp add: url_eval)

text \<open>
  C1, amended. For every string \<open>X\<close>, resolving \<open>s3://X\<close> fails with the error of
  \<open>url.Parse\<close> when \<open>url.Parse\<close> rejects the string, and otherwise gives kind \<open>TypeS3\<close>,
  the host of the parsed URI (the authority without user information) as bucket, and as
  path the path of the parsed URI, which is decoded, without one leading separator. The
  same descriptor is given for every endpoint that \<open>url.Parse\<close> reads as a URI of
  scheme \<open>s3\<close>. \<open>strings.TrimPrefix\<close> removes one separator and no more: from a path
  \<open>/q\<close> it leaves \<open>q\<close>, even when \<open>q\<close> starts with a separator itself, and a path that
  does not start with one is kept. On every string \<open>s3://bucket/path\<close> whose bucket is
  made of plain host bytes and whose path is made of plain path bytes, resolution
  succeeds and the descriptor holds exactly \<open>bucket\<close> and \<open>path\<close>.
\<close>

theorem parseConn_s3:
  "parseConn (''s3://'' @ X) =
     (case Parse (''s3://'' @ X) of
        Inl err \<Rightarrow> Inl err
      | Inr u \<Rightarrow> Inr \<lparr>Type = TypeS3, Bucket = Host u, Path = TrimPrefix (URL.Path u) ''/''\<rparr>)
   \<and> (Parse cStr = Inr u \<and> Scheme u = ''s3'' \<longrightarrow>
      parseConn cStr =
        Inr \<lparr>Type = TypeS3, Bucket = Host u, Path = TrimPrefix (URL.Path u) ''/''\<rparr>)
   \<and> TrimPrefix (CHR ''/'' # q) ''/'' = q
   \<and> (\<not> HasPrefix q ''/'' \<longrightarrow> TrimPrefix q ''/'' = q)
   \<and> ((\<forall>c \<in> set bucket. plainHostByte c) \<and> (\<forall>c \<in> set path. plainPathByte c) \<longrightarrow>
        parseConn (''s3://'' @ bucket @ ''/'' @ path) =
          Inr \<lparr>Type = TypeS3, Bucket = bucket, Path = path\<rparr>)"
proof -
  have a: "parseConn cStr =
             Inr \<lparr>Type = TypeS3, Bucket = Host u, Path = TrimPrefix (URL.Path u) ''/''\<rparr>"
    if "Parse cStr = Inr u" and "Scheme u = ''s3''"
    using that by (simp add: parseConn_def)
  have b: "TrimPrefix (CHR ''/'' # q) ''/'' = q"
    by (simp add: TrimPrefix_def HasPrefix_def)
  have c: "TrimPrefix q ''/'' = q" if "\<not> HasPrefix q ''/''"
    using that by (simp add: TrimPrefix_def)
  from a b c plain_s3_resolves [of bucket path] s3_resolves_or_fails [of X]
  show ?thesis by blast
qed

theorem parseConn_s3_witness:
  "Parse ''s3://bucket/path'' =
     Inr \<lparr>Scheme = ''s3'', Opaque = [], User = None, Host = ''bucket'', Path = ''/path'',
          ForceQuery = False, RawQuery = [], Fragment = []\<rparr>
   \<and> parseConn ''s3://bucket/path'' = Inr \<lparr>Type = TypeS3, Bucket = ''bucket'', Path = ''path''\<rparr>
   \<and> parseConn ''s3://bucket//path'' = Inr \<lparr>Type = TypeS3, Bucket = ''bucket'', Path = ''/path''\<rparr>
   \<and> parseConn ''S3://user@bucket:9000/a%20b?v=1#f'' =
       Inr \<lparr>Type = TypeS3, Bucket = ''bucket:9000'', Path = ''a b''\<rparr>
   \<and> TrimPrefix ''path'' ''/'' = ''path''"
proof -
  have hb: "\<forall>c \<in> set ''bucket''. plainHostByte c"
    by (simp add: plainHostByte_def isLower_def isUpper_def isNum_def)
  have hp: "\<forall>c \<in> set ''path''. plainPathByte c" and hq: "\<forall>c \<in> set ''/path''. plainPathByte c"
    by (simp_all add: plainPathByte_def)
  have p: "Parse ''s3://bucket/path'' =
     Inr \<lparr>Scheme = ''s3'', Opaque = [], User = None, Host = ''bucket'', Path = ''/path'',
          ForceQuery = False, RawQuery = [], Fragment = []\<rparr>"
    by (simp add: url_eval)
  from hb hp parseConn_s3 [where bucket = "''bucket''" and path = "''path''",
      THEN conjunct2, THEN conjunct2, THEN conjunct2, THEN conjunct2]
  have 1: "parseConn ''s3://bucket/path'' = Inr \<lparr>Type = TypeS3, Bucket = ''bucket'', Path = ''path''\<rparr>"
    by simp
  from hb hq parseConn_s3 [where bucket = "''bucket''" and path = "''/path''",
      THEN conjunct2, THEN conjunct2, THEN conjunct2, THEN conjunct2]
  have 2: "parseConn ''s3://bucket//path'' = Inr \<lparr>Type = TypeS3, Bucket = ''bucket'', Path = ''/path''\<rparr>"
    by simp
  have u: "Parse ''S3://user@bucket:9000/a%20b?v=1#f'' =
     Inr \<lparr>Scheme = ''s3'', Opaque = [],
          User = Some \<lparr>username = ''user'', password = [], passwordSet = False\<rparr>,
          Host = ''bucket:9000'', Path = ''/a b'', ForceQuery = False, RawQuery = ''v=1'',
          Fragment = ''f''\<rparr>
       \<and> Scheme \<lparr>Scheme = ''s3'', Opaque = [],
          User = Some \<lparr>username = ''user'', password = [], passwordSet = False\<rparr>,
          Host = ''bucket:9000'', Path = ''/a b'', ForceQuery = False, RawQuery = ''v=1'',
          Fragment = ''f''\<rparr> = ''s3''"
    by (simp add: url_eval char_of_eq_iff)
  from parseConn_s3 [where cStr = "''S3://user@bucket:9000/a%20b?v=1#f''",
      THEN conjunct2, THEN conjunct1, THEN mp, OF u]
  have 3: "parseConn ''S3://user@bucket:9000/a%20b?v=1#f'' =
       Inr \<lparr>Type = TypeS3, Bucket = ''bucket:9000'', Path = ''a b''\<rparr>"
    by (simp add: TrimPrefix_def HasPrefix_def)
  have n: "\<not> HasPrefix ''path'' ''/''"
    by (simp add: HasPrefix_def)
  from parseConn_s3 [where q = "''path''",
      THEN conjunct2, THEN conjunct2, THEN conjunct2, THEN conjunct1, THEN mp, OF n]
  have 4: "TrimPrefix ''path'' ''/'' = ''path''" .
  from p 1 2 3 4 show ?thesis by simp
qed

text \<open>
  C2, as the claim states it, fails: \<open>parseConn\<close> parses the whole string as a URI
  before it looks at the scheme, and returns the error of \<open>url.Parse\<close>. The directory
  \<open>/tmp/100%\<close> is an input: its percent sign is not a URI escape.
\<close>

theorem parseConn_fs_counterexample:
  "parseConn (''fs://'' @ ''/tmp/100%'') =
     Inl (Error ''parse'' ''fs:///tmp/100%'' (EscapeError ''%''))"
  by (simp add: url_eval)

text \<open>
  C2, amended. For every string \<open>X\<close>, resolving \<open>fs://X\<close> fails with the error of
  \<open>url.Parse\<close> when \<open>url.Parse\<close> rejects the string, and otherwise gives kind \<open>TypeFS\<close>,
  an empty bucket and the path \<open>X\<close> exactly. It succeeds on every absolute path of plain
  path bytes, which may hold spaces and other bytes that a URI must escape.
\<close>

theorem parseConn_fs:
  "parseConn (''fs://'' @ X) =
     (case Parse (''fs://'' @ X) of
        Inl err \<Rightarrow> Inl err
      | Inr u \<Rightarrow> Inr \<lparr>Type = TypeFS, Bucket = [], Path = X\<rparr>)
   \<and> ((\<forall>c \<in> set p. plainPathByte c) \<longrightarrow>
        parseConn (''fs://'' @ CHR ''/'' # p) =
          Inr \<lparr>Type = TypeFS, Bucket = [], Path = CHR ''/'' # p\<rparr>)"
  using fs_resolves_or_fails [of X] plain_fs_resolves [of p] by blast

theorem parseConn_fs_witness:
  "parseConn ''fs:///tmp/my dir/<x>'' =
     Inr \<lparr>Type = TypeFS, Bucket = [], Path = ''/tmp/my dir/<x>''\<rparr>"
proof -
  have h: "\<forall>c \<in> set ''tmp/my dir/<x>''. plainPathByte c"
    by (simp add: plainPathByte_def)
  from parseConn_fs [where X = "[]" and p = "''tmp/my dir/<x>''", THEN conjunct2, THEN mp, OF h]
  show ?thesis by simp
qed

text \<open>
  C3, as the claim states it, fails: a plain path that \<open>url.Parse\<close> rejects makes
  \<open>parseConn\<close> return the error; there is no fallback to the path.
\<close>

theorem parseConn_default_counterexample:
  "parseConn ''/data/100%'' = Inl (Error ''parse'' ''/data/100%'' (EscapeError ''%''))"
  by (simp add: url_eval)

text \<open>
  C3, amended. When \<open>url.Parse\<close> rejects the endpoint string, resolution fails with
  that error. When it accepts the string with a scheme other than \<open>s3\<close> and \<open>fs\<close>, the
  descriptor has kind \<open>TypeFS\<close>, an empty bucket and the input string as its path. For
  every string that starts with a separator, resolution either fails with the error of
  \<open>url.Parse\<close> or gives that descriptor. It gives it for every such string of plain
  path bytes that does not start with two separators. After two separators
  \<open>url.Parse\<close> reads an authority, and may reject it: \<open>//my dir/x\<close> does not resolve.
\<close>

theorem parseConn_default:
  "(Parse cStr = Inl err \<longrightarrow> parseConn cStr = Inl err)
   \<and> (Parse cStr = Inr u \<and> Scheme u \<noteq> ''s3'' \<and> Scheme u \<noteq> ''fs'' \<longrightarrow>
        parseConn cStr = Inr \<lparr>Type = TypeFS, Bucket = [], Path = cStr\<rparr>)
   \<and> ((\<forall>c \<in> set p. plainPathByte c) \<and> (p = [] \<or> hd p \<noteq> CHR ''/'') \<longrightarrow>
        parseConn (CHR ''/'' # p) = Inr \<lparr>Type = TypeFS, Bucket = [], Path = CHR ''/'' # p\<rparr>)
   \<and> parseConn (CHR ''/'' # t) =
       (case Parse (CHR ''/'' # t) of
          Inl err \<Rightarrow> Inl err
        | Inr u \<Rightarrow> Inr \<lparr>Type = TypeFS, Bucket = [], Path = CHR ''/'' # t\<rparr>)
   \<and> parseConn ''//my dir/x'' = Inl (Error ''parse'' ''//my dir/x'' (InvalidHostError '' ''))"
proof -
  have a: "parseConn cStr = Inl err" if "Parse cStr = Inl err"
    using that by (simp add: parseConn_def)
  have b: "parseConn cStr = Inr \<lparr>Type = TypeFS, Bucket = [], Path = cStr\<rparr>"
    if "Parse cStr = Inr u" and "Scheme u \<noteq> ''s3''" and "Scheme u \<noteq> ''fs''"
    using that by (simp add: parseConn_def)
  have c: "parseConn (CHR ''/'' # p) = Inr \<lparr>Type = TypeFS, Bucket = [], Path = CHR ''/'' # p\<rparr>"
    if "\<forall>c \<in> set p. plainPathByte c" and "p = [] \<or> hd p \<noteq> CHR ''/''"
    unfolding parseConn_def Parse_bare_path [OF that] by simp
  have d: "parseConn ''//my dir/x'' = Inl (Error ''parse'' ''//my dir/x'' (InvalidHostError '' ''))"
    by (simp add: url_eval)
  from a b c d slash_resolves_or_fails [of t] show ?thesis by blast
qed

theorem parseConn_default_witness:
  "parseConn ''/data/dir'' = Inr \<lparr>Type = TypeFS, Bucket = [], Path = ''/data/dir''\<rparr>
   \<and> parseConn ''C:/data'' = Inr \<lparr>Type = TypeFS, Bucket = [], Path = ''C:/data''\<rparr>
   \<and> parseConn ''1:data'' = Inl (Error ''parse'' ''1:data'' FirstPathSegmentColon)"
proof -
  have h: "(\<forall>c \<in> set ''data/dir''. plainPathByte c)
      \<and> (''data/dir'' = [] \<or> hd ''data/dir'' \<noteq> CHR ''/'')"
    by (simp add: plainPathByte_def)
  from parseConn_default [where cStr = "[]" and p = "''data/dir''",
      THEN conjunct2, THEN conjunct2, THEN conjunct1, THEN mp, OF h]
  have 1: "parseConn ''/data/dir'' = Inr \<lparr>Type = TypeFS, Bucket = [], Path = ''/data/dir''\<rparr>"
    by simp
  have k: "Parse ''C:/data'' =
      Inr \<lparr>Scheme = ''c'', Opaque = [], User = None, Host = [], Path = ''/data'',
           ForceQuery = False, RawQuery = [], Fragment = []\<rparr>
      \<and> Scheme \<lparr>Scheme = ''c'', Opaque = [], User = None, Host = [], Path = ''/data'',
           ForceQuery = False, RawQuery = [], Fragment = []\<rparr> \<noteq> ''s3''
      \<and> Scheme \<lparr>Scheme = ''c'', Opaque = [], User = None, Host = [], Path = ''/data'',
           ForceQuery = False, RawQuery = [], Fragment = []\<rparr> \<noteq> ''fs''"
    by (simp add: url_eval char_of_eq_iff)
  from parseConn_default [where cStr = "''C:/data''", THEN conjunct2, THEN conjunct1, THEN mp, OF k]
  have 2: "parseConn ''C:/data'' = Inr \<lparr>Type = TypeFS, Bucket = [], Path = ''C:/data''\<rparr>" .
  have e: "Parse ''1:data'' = Inl (Error ''parse'' ''1:data'' FirstPathSegmentColon)"
    by (simp add: url_eval)
  from parseConn_default [where cStr = "''1:data''", THEN conjunct1, THEN mp, OF e]
  have 3: "parseConn ''1:data'' = Inl (Error ''parse'' ''1:data'' FirstPathSegmentColon)" .
  from 1 2 3 show ?thesis by simp
qed

text \<open>
  C7, as the claim states it, fails: a URI of scheme \<open>s3\<close> with an empty authority
  resolves to a descriptor of kind \<open>TypeS3\<close> with an empty bucket. Nothing in
  \<open>parseConn\<close> or after it checks the bucket.
\<close>

theorem parseConn_invariant_counterexample:
  "parseConn ''s3:///path'' = Inr \<lparr>Type = TypeS3, Bucket = [], Path = ''path''\<rparr>"
  by (simp add: url_eval)

text \<open>
  C7, amended. A descriptor of kind \<open>TypeFS\<close> that resolution returns has an empty
  bucket. A descriptor of kind \<open>TypeS3\<close> has the host of the parsed URI as its bucket,
  which is empty when the URI has no authority: \<open>s3:///path\<close> resolves to an empty
  bucket for every plain path.
\<close>

theorem parseConn_invariant:
  "(parseConn cStr = Inr conn \<longrightarrow>
      (Type conn = TypeFS \<longrightarrow> Bucket conn = [])
      \<and> (Type conn = TypeS3 \<longrightarrow>
           (\<exists>u. Parse cStr = Inr u \<and> Scheme u = ''s3'' \<and> Bucket conn = Host u)))
   \<and> ((\<forall>c \<in> set path. plainPathByte c) \<longrightarrow>
        parseConn (''s3:///'' @ path) = Inr \<lparr>Type = TypeS3, Bucket = [], Path = path\<rparr>)"
proof -
  have a: "(Type conn = TypeFS \<longrightarrow> Bucket conn = [])
      \<and> (Type conn = TypeS3 \<longrightarrow>
           (\<exists>u. Parse cStr = Inr u \<and> Scheme u = ''s3'' \<and> Bucket conn = Host u))"
    if "parseConn cStr = Inr conn"
    using that by (auto simp: parseConn_def split: sum.splits if_splits)
  have b: "parseConn (''s3:///'' @ path) = Inr \<lparr>Type = TypeS3, Bucket = [], Path = path\<rparr>"
    if "\<forall>c \<in> set path. plainPathByte c"
    using plain_s3_resolves [of "[]" path] that by simp
  from a b show ?thesis by blast
qed

theorem parseConn_invariant_witness:
  "parseConn ''/data/dir'' = Inr \<lparr>Type = TypeFS, Bucket = [], Path = ''/data/dir''\<rparr>
   \<and> Bucket \<lparr>Type = TypeFS, Bucket = [], Path = ''/data/dir''\<rparr> = []
   \<and> parseConn ''s3:///a/b'' = Inr \<lparr>Type = TypeS3, Bucket = [], Path = ''a/b''\<rparr>"
proof -
  have e: "parseConn ''/data/dir'' = Inr \<lparr>Type = TypeFS, Bucket = [], Path = ''/data/dir''\<rparr>"
    by (simp add: url_eval)
  have "\<forall>c \<in> set ''a/b''. plainPathByte c"
    by (simp add: plainPathByte_def)
  with e parseConn_invariant [where cStr = "''/data/dir''" and path = "''a/b''"
      and conn = "\<lparr>Type = TypeFS, Bucket = [], Path = ''/data/dir''\<rparr>"]
  show ?thesis by simp
qed

section \<open>Configuration resolution: properties\<close>

lemmas GetCliArgs_eval =
  GetCliArgs_def acl_values_def defaults_def parseBandwith_def url_eval ParseUint_def
  digitVal_def Second_def

lemma Ok_OnFail_mapped:
  assumes "fst (GetCliArgs Digit env rawCli) = Ok cli"
  shows "(args.OnFail rawCli = ''fatal'' \<and> OnFail cli = onFailFatal)
    \<or> (args.OnFail rawCli = ''skip'' \<and> OnFail cli = onFailSkip)
    \<or> (args.OnFail rawCli = ''skipmissing'' \<and> OnFail cli = onFailSkipMissing)"
  using assms
  by (cases "parseBandwith Digit (args.RateLimitBandwidth rawCli)";
      cases "parseConn (args.Source rawCli)"; cases "parseConn (args.Target rawCli)";
      cases "ParseUint (args.FSFilePerm rawCli) 8 32";
      cases "ParseUint (args.FSDirPerm rawCli) 8 32")
     (auto simp: GetCliArgs_def Let_def split: if_splits)

lemma OnFail_other_fails:
  assumes "args.OnFail rawCli \<noteq> ''fatal''" "args.OnFail rawCli \<noteq> ''skip''"
    "args.OnFail rawCli \<noteq> ''skipmissing''"
  shows "GetCliArgs Digit env rawCli =
     (Fail (if S3Acl rawCli \<in> set acl_values then onfail_message else acl_message), env)"
  using assms by (simp add: GetCliArgs_def)

lemma FilterModified_never_Ok:
  assumes "FilterModified rawCli" "FSDisableXattr rawCli"
  shows "fst (GetCliArgs Digit env rawCli) \<noteq> Ok cli"
  using assms
  by (cases "parseBandwith Digit (args.RateLimitBandwidth rawCli)";
      cases "parseConn (args.Source rawCli)"; cases "parseConn (args.Target rawCli)";
      cases "ParseUint (args.FSFilePerm rawCli) 8 32";
      cases "ParseUint (args.FSDirPerm rawCli) 8 32")
     (simp_all add: GetCliArgs_def Let_def)

lemma FilterModified_fails_last:
  assumes "FilterModified rawCli" "FSDisableXattr rawCli"
    and "fst (GetCliArgs Digit env (rawCli\<lparr>FilterModified := False\<rparr>)) = Ok cli"
  shows "fst (GetCliArgs Digit env rawCli) =
     Fail ''Filter modified files (--filter-modified) required xattr''"
  using assms
  by (cases "parseBandwith Digit (args.RateLimitBandwidth rawCli)";
      cases "parseConn (args.Source rawCli)"; cases "parseConn (args.Target rawCli)";
      cases "ParseUint (args.FSFilePerm rawCli) 8 32";
      cases "ParseUint (args.FSDirPerm rawCli) 8 32")
     (simp_all add: GetCliArgs_def Let_def split: if_splits)

lemma outcome_depends_on_IsTerminal:
  "IsTerminal env1 = IsTerminal env2 \<Longrightarrow>
   fst (GetCliArgs Digit env1 rawCli) = fst (GetCliArgs Digit env2 rawCli)"
  by (cases "parseBandwith Digit (args.RateLimitBandwidth rawCli)";
      cases "parseConn (args.Source rawCli)"; cases "parseConn (args.Target rawCli)";
      cases "ParseUint (args.FSFilePerm rawCli) 8 32";
      cases "ParseUint (args.FSDirPerm rawCli) 8 32")
     (simp_all add: GetCliArgs_def Let_def)

lemma IsTerminal_unchanged:
  "IsTerminal (snd (GetCliArgs Digit env rawCli)) = IsTerminal env"
  by (cases "parseBandwith Digit (args.RateLimitBandwidth rawCli)";
      cases "parseConn (args.Source rawCli)"; cases "parseConn (args.Target rawCli)";
      cases "ParseUint (args.FSFilePerm rawCli) 8 32";
      cases "ParseUint (args.FSDirPerm rawCli) 8 32")
     (simp_all add: GetCliArgs_def Let_def)

lemma defaults_resolve:
  "GetCliArgs Digit env
     (defaults\<lparr>args.Source := ''s3://bucket/path'', args.Target := ''/data/dir''\<rparr>) =
   (Ok \<lparr>args = defaults\<lparr>args.Source := ''s3://bucket/path'', args.Target := ''/data/dir''\<rparr>,
        Source = \<lparr>Type = TypeS3, Bucket = ''bucket'', Path = ''path''\<rparr>,
        Target = \<lparr>Type = TypeFS, Bucket = [], Path = ''/data/dir''\<rparr>,
        S3RetryInterval = 0, OnFail = onFailFatal, FSFilePerm = 420, FSDirPerm = 493,
        RateLimitBandwidth = 0\<rparr>, env)"
  by (simp add: GetCliArgs_eval)

lemma Ok_checks:
  assumes "fst (GetCliArgs Digit env rawCli) = Ok cli"
  shows "S3Acl rawCli \<in> set acl_values
    \<and> (args.OnFail rawCli = ''fatal'' \<or> args.OnFail rawCli = ''skip''
         \<or> args.OnFail rawCli = ''skipmissing'')
    \<and> snd (parseBandwith Digit (args.RateLimitBandwidth rawCli))
    \<and> (\<exists>source. parseConn (args.Source rawCli) = Inr source \<and> Source cli = source)
    \<and> (\<exists>target. parseConn (args.Target rawCli) = Inr target \<and> Target cli = target)
    \<and> \<not> (ShowProgress rawCli \<and> \<not> IsTerminal env)
    \<and> (\<exists>filePerm. ParseUint (args.FSFilePerm rawCli) 8 32 = Inr filePerm
          \<and> FSFilePerm cli = word_of_nat filePerm)
    \<and> (\<exists>dirPerm. ParseUint (args.FSDirPerm rawCli) 8 32 = Inr dirPerm
          \<and> FSDirPerm cli = word_of_nat dirPerm)
    \<and> \<not> (FilterModified rawCli \<and> FSDisableXattr rawCli)
    \<and> args cli = rawCli
    \<and> S3RetryInterval cli = args.S3RetryInterval rawCli * Second
    \<and> RateLimitBandwidth cli = fst (parseBandwith Digit (args.RateLimitBandwidth rawCli))"
  using assms
  by (cases "parseBandwith Digit (args.RateLimitBandwidth rawCli)";
      cases "parseConn (args.Source rawCli)"; cases "parseConn (args.Target rawCli)";
      cases "ParseUint (args.FSFilePerm rawCli) 8 32";
      cases "ParseUint (args.FSDirPerm rawCli) 8 32")
     (auto simp: GetCliArgs_def Let_def split: if_splits)

lemma checks_Ok:
  assumes "S3Acl rawCli \<in> set acl_values"
    and "args.OnFail rawCli = ''fatal'' \<or> args.OnFail rawCli = ''skip''
         \<or> args.OnFail rawCli = ''skipmissing''"
    and "parseBandwith Digit (args.RateLimitBandwidth rawCli) = (rate, True)"
    and "parseConn (args.Source rawCli) = Inr source"
    and "parseConn (args.Target rawCli) = Inr target"
    and "\<not> (ShowProgress rawCli \<and> \<not> IsTerminal env)"
    and "ParseUint (args.FSFilePerm rawCli) 8 32 = Inr filePerm"
    and "ParseUint (args.FSDirPerm rawCli) 8 32 = Inr dirPerm"
    and "\<not> (FilterModified rawCli \<and> FSDisableXattr rawCli)"
  shows "fst (GetCliArgs Digit env rawCli) =
     Ok \<lparr>args = rawCli, Source = source, Target = target,
         S3RetryInterval = args.S3RetryInterval rawCli * Second,
         OnFail = (if args.OnFail rawCli = ''fatal'' then onFailFatal
                   else if args.OnFail rawCli = ''skip'' then onFailSkip
                   else onFailSkipMissing),
         FSFilePerm = word_of_nat filePerm, FSDirPerm = word_of_nat dirPerm,
         RateLimitBandwidth = rate\<rparr>"
  using assms(2)
proof (elim disjE)
  assume "args.OnFail rawCli = ''fatal''"
  with assms(1,3-9) show ?thesis by (simp add: GetCliArgs_def Let_def)
next
  assume "args.OnFail rawCli = ''skip''"
  with assms(1,3-9) show ?thesis by (simp add: GetCliArgs_def Let_def)
next
  assume "args.OnFail rawCli = ''skipmissing''"
  with assms(1,3-9) show ?thesis by (simp add: GetCliArgs_def Let_def)
qed

lemma OnFail_accepted:
  assumes ok: "fst (GetCliArgs Digit env rawCli) = Ok cli"
    and v: "v = ''fatal'' \<or> v = ''skip'' \<or> v = ''skipmissing''"
  shows "fst (GetCliArgs Digit env (rawCli\<lparr>args.OnFail := v\<rparr>)) =
     Ok (cli\<lparr>args := rawCli\<lparr>args.OnFail := v\<rparr>,
             OnFail := (if v = ''fatal'' then onFailFatal
                        else if v = ''skip'' then onFailSkip else onFailSkipMissing)\<rparr>)"
proof -
  let ?r = "rawCli\<lparr>args.OnFail := v\<rparr>"
  from Ok_checks [OF ok] obtain source target filePerm dirPerm where
    acl: "S3Acl rawCli \<in> set acl_values"
    and bw: "snd (parseBandwith Digit (args.RateLimitBandwidth rawCli))"
    and src: "parseConn (args.Source rawCli) = Inr source" "Source cli = source"
    and tgt: "parseConn (args.Target rawCli) = Inr target" "Target cli = target"
    and tty: "\<not> (ShowProgress rawCli \<and> \<not> IsTerminal env)"
    and fp: "ParseUint (args.FSFilePerm rawCli) 8 32 = Inr filePerm"
      "FSFilePerm cli = word_of_nat filePerm"
    and dp: "ParseUint (args.FSDirPerm rawCli) 8 32 = Inr dirPerm"
      "FSDirPerm cli = word_of_nat dirPerm"
    and fm: "\<not> (FilterModified rawCli \<and> FSDisableXattr rawCli)"
    and rest: "args cli = rawCli" "S3RetryInterval cli = args.S3RetryInterval rawCli * Second"
      "RateLimitBandwidth cli = fst (parseBandwith Digit (args.RateLimitBandwidth rawCli))"
    by blast
  from bw have bw': "parseBandwith Digit (args.RateLimitBandwidth ?r) =
      (fst (parseBandwith Digit (args.RateLimitBandwidth rawCli)), True)"
    by (cases "parseBandwith Digit (args.RateLimitBandwidth rawCli)") simp
  have "fst (GetCliArgs Digit env ?r) =
     Ok \<lparr>args = ?r, Source = source, Target = target,
         S3RetryInterval = args.S3RetryInterval ?r * Second,
         OnFail = (if args.OnFail ?r = ''fatal'' then onFailFatal
                   else if args.OnFail ?r = ''skip'' then onFailSkip
                   else onFailSkipMissing),
         FSFilePerm = word_of_nat filePerm, FSDirPerm = word_of_nat dirPerm,
         RateLimitBandwidth = fst (parseBandwith Digit (args.RateLimitBandwidth rawCli))\<rparr>"
    using acl v bw' src(1) tgt(1) tty fp(1) dp(1) fm
    by (intro checks_Ok) simp_all
  also have "\<dots> = Ok (cli\<lparr>args := ?r,
             OnFail := (if v = ''fatal'' then onFailFatal
                        else if v = ''skip'' then onFailSkip else onFailSkipMissing)\<rparr>)"
    using src(2) tgt(2) fp(2) dp(2) rest by (cases cli) simp
  finally show ?thesis .
qed

lemma OnFail_message_iff:
  assumes "S3Acl rawCli \<in> set acl_values"
  shows "fst (GetCliArgs Digit env rawCli) = Fail onfail_message \<longleftrightarrow>
     args.OnFail rawCli \<noteq> ''fatal'' \<and> args.OnFail rawCli \<noteq> ''skip''
     \<and> args.OnFail rawCli \<noteq> ''skipmissing''"
  using assms
  by (cases "parseBandwith Digit (args.RateLimitBandwidth rawCli)";
      cases "parseConn (args.Source rawCli)"; cases "parseConn (args.Target rawCli)";
      cases "ParseUint (args.FSFilePerm rawCli) 8 32";
      cases "ParseUint (args.FSDirPerm rawCli) 8 32")
     (simp_all add: GetCliArgs_def Let_def onfail_message_def)

lemma FilterModified_as_without:
  assumes "FilterModified rawCli" "FSDisableXattr rawCli"
  shows "fst (GetCliArgs Digit env rawCli) =
     (case fst (GetCliArgs Digit env (rawCli\<lparr>FilterModified := False\<rparr>)) of
        Fail msg \<Rightarrow> Fail msg
      | Err err \<Rightarrow> Err err
      | Ok cli \<Rightarrow> Fail ''Filter modified files (--filter-modified) required xattr'')"
  using assms
  by (cases "parseBandwith Digit (args.RateLimitBandwidth rawCli)";
      cases "parseConn (args.Source rawCli)"; cases "parseConn (args.Target rawCli)";
      cases "ParseUint (args.FSFilePerm rawCli) 8 32";
      cases "ParseUint (args.FSDirPerm rawCli) 8 32")
     (simp_all add: GetCliArgs_def Let_def)

lemma FilterModified_order:
  assumes "FilterModified rawCli" "FSDisableXattr rawCli"
  shows "fst (GetCliArgs Digit env rawCli) =
     (if S3Acl rawCli \<notin> set acl_values then Fail acl_message
      else if args.OnFail rawCli \<noteq> ''fatal'' \<and> args.OnFail rawCli \<noteq> ''skip''
              \<and> args.OnFail rawCli \<noteq> ''skipmissing'' then Fail onfail_message
      else if \<not> snd (parseBandwith Digit (args.RateLimitBandwidth rawCli))
        then Fail ''Invalid value of (--ratelimit-bandwidth) arg''
      else case parseConn (args.Source rawCli) of
        Inl err \<Rightarrow> Err err
      | Inr source \<Rightarrow>
          (case parseConn (args.Target rawCli) of
             Inl err \<Rightarrow> Err err
           | Inr target \<Rightarrow>
               if ShowProgress rawCli \<and> \<not> IsTerminal env
               then Fail ''Progress (--sync-progress) require tty''
               else
                 (case ParseUint (args.FSFilePerm rawCli) 8 32 of
                    Inl e \<Rightarrow> Fail ''Failed to parse arg --fs-file-perm''
                  | Inr filePerm \<Rightarrow>
                      (case ParseUint (args.FSDirPerm rawCli) 8 32 of
                         Inl e \<Rightarrow> Fail ''Failed to parse arg --fs-dir-perm''
                       | Inr dirPerm \<Rightarrow>
                           Fail ''Filter modified files (--filter-modified) required xattr''))))"
  using assms
  by (cases "parseBandwith Digit (args.RateLimitBandwidth rawCli)";
      cases "parseConn (args.Source rawCli)"; cases "parseConn (args.Target rawCli)";
      cases "ParseUint (args.FSFilePerm rawCli) 8 32";
      cases "ParseUint (args.FSDirPerm rawCli) 8 32")
     (simp_all add: GetCliArgs_def Let_def)

text \<open>
  C6. The on-failure strings \<open>fatal\<close>, \<open>skip\<close> and \<open>skipmissing\<close>, compared byte for
  byte, are accepted and mapped to \<open>onFailFatal\<close>, \<open>onFailSkip\<close> and
  \<open>onFailSkipMissing\<close>: when resolution succeeds, the string is one of the three and the
  parsed action is the matching one; in arguments that resolve, putting any of the three
  strings gives arguments that resolve, to the same parsed arguments but for the string
  and its action; and once the ACL check has passed, resolution ends with the message of
  the on-failure option exactly when the string is none of the three. For every other
  string resolution fails: the process exits through \<open>p.Fail\<close>, with the message of the
  on-failure option, or that of the ACL option when the ACL check before it has failed.
\<close>

theorem GetCliArgs_OnFail:
  "(fst (GetCliArgs Digit env rawCli) = Ok cli \<longrightarrow>
      (args.OnFail rawCli = ''fatal'' \<and> OnFail cli = onFailFatal)
      \<or> (args.OnFail rawCli = ''skip'' \<and> OnFail cli = onFailSkip)
      \<or> (args.OnFail rawCli = ''skipmissing'' \<and> OnFail cli = onFailSkipMissing))
   \<and> (args.OnFail rawCli \<noteq> ''fatal'' \<and> args.OnFail rawCli \<noteq> ''skip''
        \<and> args.OnFail rawCli \<noteq> ''skipmissing'' \<longrightarrow>
        GetCliArgs Digit env rawCli =
          (Fail (if S3Acl rawCli \<in> set acl_values then onfail_message else acl_message), env))
   \<and> (fst (GetCliArgs Digit env rawCli) = Ok cli
        \<and> (v = ''fatal'' \<or> v = ''skip'' \<or> v = ''skipmissing'') \<longrightarrow>
        fst (GetCliArgs Digit env (rawCli\<lparr>args.OnFail := v\<rparr>)) =
          Ok (cli\<lparr>args := rawCli\<lparr>args.OnFail := v\<rparr>,
                  OnFail := (if v = ''fatal'' then onFailFatal
                             else if v = ''skip'' then onFailSkip else onFailSkipMissing)\<rparr>))
   \<and> (S3Acl rawCli \<in> set acl_values \<longrightarrow>
        (fst (GetCliArgs Digit env rawCli) = Fail onfail_message \<longleftrightarrow>
           args.OnFail rawCli \<noteq> ''fatal'' \<and> args.OnFail rawCli \<noteq> ''skip''
           \<and> args.OnFail rawCli \<noteq> ''skipmissing''))"
proof -
  have a: "fst (GetCliArgs Digit env (rawCli\<lparr>args.OnFail := v\<rparr>)) =
          Ok (cli\<lparr>args := rawCli\<lparr>args.OnFail := v\<rparr>,
                  OnFail := (if v = ''fatal'' then onFailFatal
                             else if v = ''skip'' then onFailSkip else onFailSkipMissing)\<rparr>)"
    if "fst (GetCliArgs Digit env rawCli) = Ok cli"
      and "v = ''fatal'' \<or> v = ''skip'' \<or> v = ''skipmissing''"
    using that by (rule OnFail_accepted)
  have b: "fst (GetCliArgs Digit env rawCli) = Fail onfail_message \<longleftrightarrow>
           args.OnFail rawCli \<noteq> ''fatal'' \<and> args.OnFail rawCli \<noteq> ''skip''
           \<and> args.OnFail rawCli \<noteq> ''skipmissing''"
    if "S3Acl rawCli \<in> set acl_values"
    using that by (rule OnFail_message_iff)
  have c: "(args.OnFail rawCli = ''fatal'' \<and> OnFail cli = onFailFatal)
      \<or> (args.OnFail rawCli = ''skip'' \<and> OnFail cli = onFailSkip)
      \<or> (args.OnFail rawCli = ''skipmissing'' \<and> OnFail cli = onFailSkipMissing)"
    if "fst (GetCliArgs Digit env rawCli) = Ok cli"
    using that by (rule Ok_OnFail_mapped)
  have d: "GetCliArgs Digit env rawCli =
          (Fail (if S3Acl rawCli \<in> set acl_values then onfail_message else acl_message), env)"
    if "args.OnFail rawCli \<noteq> ''fatal'' \<and> args.OnFail rawCli \<noteq> ''skip''
        \<and> args.OnFail rawCli \<noteq> ''skipmissing''"
    using that by (intro OnFail_other_fails) simp_all
  show ?thesis
    apply (intro conjI impI)
       apply (erule c)
      apply (erule d)
     apply (erule conjE, erule (1) a)
    apply (erule b)
    done
qed

theorem GetCliArgs_OnFail_witness:
  "\<forall>Digit env.
     fst (GetCliArgs Digit env
            (defaults\<lparr>args.Source := ''s3://bucket/path'', args.Target := ''/data/dir'',
                      args.OnFail := ''skipmissing''\<rparr>))
       = Ok \<lparr>args = defaults\<lparr>args.Source := ''s3://bucket/path'', args.Target := ''/data/dir'',
                                args.OnFail := ''skipmissing''\<rparr>,
              Source = \<lparr>Type = TypeS3, Bucket = ''bucket'', Path = ''path''\<rparr>,
              Target = \<lparr>Type = TypeFS, Bucket = [], Path = ''/data/dir''\<rparr>,
              S3RetryInterval = 0, OnFail = onFailSkipMissing, FSFilePerm = 420, FSDirPerm = 493,
              RateLimitBandwidth = 0\<rparr>
     \<and> fst (GetCliArgs Digit env
            (defaults\<lparr>args.Source := ''s3://bucket/path'', args.Target := ''/data/dir'',
                      args.OnFail := ''fatal''\<rparr>))
       = Ok \<lparr>args = defaults\<lparr>args.Source := ''s3://bucket/path'', args.Target := ''/data/dir'',
                                args.OnFail := ''fatal''\<rparr>,
              Source = \<lparr>Type = TypeS3, Bucket = ''bucket'', Path = ''path''\<rparr>,
              Target = \<lparr>Type = TypeFS, Bucket = [], Path = ''/data/dir''\<rparr>,
              S3RetryInterval = 0, OnFail = onFailFatal, FSFilePerm = 420, FSDirPerm = 493,
              RateLimitBandwidth = 0\<rparr>
     \<and> fst (GetCliArgs Digit env
            (defaults\<lparr>args.Source := ''s3://bucket/path'', args.Target := ''/data/dir'',
                      args.OnFail := ''skip''\<rparr>))
       = Ok \<lparr>args = defaults\<lparr>args.Source := ''s3://bucket/path'', args.Target := ''/data/dir'',
                                args.OnFail := ''skip''\<rparr>,
              Source = \<lparr>Type = TypeS3, Bucket = ''bucket'', Path = ''path''\<rparr>,
              Target = \<lparr>Type = TypeFS, Bucket = [], Path = ''/data/dir''\<rparr>,
              S3RetryInterval = 0, OnFail = onFailSkip, FSFilePerm = 420, FSDirPerm = 493,
              RateLimitBandwidth = 0\<rparr>
     \<and> GetCliArgs Digit env (defaults\<lparr>args.OnFail := ''Fatal''\<rparr>) = (Fail onfail_message, env)
     \<and> GetCliArgs Digit env (defaults\<lparr>args.OnFail := ''skip ''\<rparr>) = (Fail onfail_message, env)"
proof (intro allI conjI)
  fix Digit env
  let ?b = "defaults\<lparr>args.Source := ''s3://bucket/path'', args.Target := ''/data/dir'',
                      args.OnFail := ''skipmissing''\<rparr>"
  let ?c = "\<lparr>args = ?b,
              Source = \<lparr>Type = TypeS3, Bucket = ''bucket'', Path = ''path''\<rparr>,
              Target = \<lparr>Type = TypeFS, Bucket = [], Path = ''/data/dir''\<rparr>,
              S3RetryInterval = 0, OnFail = onFailSkipMissing, FSFilePerm = 420, FSDirPerm = 493,
              RateLimitBandwidth = 0\<rparr>"
  show base: "fst (GetCliArgs Digit env ?b) = Ok ?c"
    by (simp add: GetCliArgs_eval)
  have f: "fst (GetCliArgs Digit env ?b) = Ok ?c
      \<and> (''fatal'' = ''fatal'' \<or> ''fatal'' = ''skip'' \<or> ''fatal'' = ''skipmissing'')"
    using base by simp
  from GetCliArgs_OnFail [where rawCli = ?b and cli = ?c and v = "''fatal''"
      and Digit = Digit and env = env,
      THEN conjunct2, THEN conjunct2, THEN conjunct1, THEN mp, OF f]
  show "fst (GetCliArgs Digit env
            (defaults\<lparr>args.Source := ''s3://bucket/path'', args.Target := ''/data/dir'',
                      args.OnFail := ''fatal''\<rparr>))
       = Ok \<lparr>args = defaults\<lparr>args.Source := ''s3://bucket/path'', args.Target := ''/data/dir'',
                                args.OnFail := ''fatal''\<rparr>,
              Source = \<lparr>Type = TypeS3, Bucket = ''bucket'', Path = ''path''\<rparr>,
              Target = \<lparr>Type = TypeFS, Bucket = [], Path = ''/data/dir''\<rparr>,
              S3RetryInterval = 0, OnFail = onFailFatal, FSFilePerm = 420, FSDirPerm = 493,
              RateLimitBandwidth = 0\<rparr>"
    by simp
  have g: "fst (GetCliArgs Digit env ?b) = Ok ?c
      \<and> (''skip'' = ''fatal'' \<or> ''skip'' = ''skip'' \<or> ''skip'' = ''skipmissing'')"
    using base by simp
  from GetCliArgs_OnFail [where rawCli = ?b and cli = ?c and v = "''skip''"
      and Digit = Digit and env = env,
      THEN conjunct2, THEN conjunct2, THEN conjunct1, THEN mp, OF g]
  show "fst (GetCliArgs Digit env
            (defaults\<lparr>args.Source := ''s3://bucket/path'', args.Target := ''/data/dir'',
                      args.OnFail := ''skip''\<rparr>))
       = Ok \<lparr>args = defaults\<lparr>args.Source := ''s3://bucket/path'', args.Target := ''/data/dir'',
                                args.OnFail := ''skip''\<rparr>,
              Source = \<lparr>Type = TypeS3, Bucket = ''bucket'', Path = ''path''\<rparr>,
              Target = \<lparr>Type = TypeFS, Bucket = [], Path = ''/data/dir''\<rparr>,
              S3RetryInterval = 0, OnFail = onFailSkip, FSFilePerm = 420, FSDirPerm = 493,
              RateLimitBandwidth = 0\<rparr>"
    by simp
  have h: "args.OnFail (defaults\<lparr>args.OnFail := ''Fatal''\<rparr>) \<noteq> ''fatal''
      \<and> args.OnFail (defaults\<lparr>args.OnFail := ''Fatal''\<rparr>) \<noteq> ''skip''
      \<and> args.OnFail (defaults\<lparr>args.OnFail := ''Fatal''\<rparr>) \<noteq> ''skipmissing''"
    by simp
  from GetCliArgs_OnFail [where rawCli = "defaults\<lparr>args.OnFail := ''Fatal''\<rparr>"
      and Digit = Digit and env = env, THEN conjunct2, THEN conjunct1, THEN mp, OF h]
  show "GetCliArgs Digit env (defaults\<lparr>args.OnFail := ''Fatal''\<rparr>) = (Fail onfail_message, env)"
    by (simp add: defaults_def acl_values_def)
  have k: "args.OnFail (defaults\<lparr>args.OnFail := ''skip ''\<rparr>) \<noteq> ''fatal''
      \<and> args.OnFail (defaults\<lparr>args.OnFail := ''skip ''\<rparr>) \<noteq> ''skip''
      \<and> args.OnFail (defaults\<lparr>args.OnFail := ''skip ''\<rparr>) \<noteq> ''skipmissing''"
    by simp
  from GetCliArgs_OnFail [where rawCli = "defaults\<lparr>args.OnFail := ''skip ''\<rparr>"
      and Digit = Digit and env = env, THEN conjunct2, THEN conjunct1, THEN mp, OF k]
  show "GetCliArgs Digit env (defaults\<lparr>args.OnFail := ''skip ''\<rparr>) = (Fail onfail_message, env)"
    by (simp add: defaults_def acl_values_def)
qed

text \<open>
  C8, as the claim states it, fails: the check of the modified-only filter is the last
  one, and a check before it that fails ends the process with its own message. With an
  ACL outside the list, resolution fails with the message of the ACL option.
\<close>

theorem GetCliArgs_FilterModified_counterexample:
  "\<forall>Digit env.
     fst (GetCliArgs Digit env
            (defaults\<lparr>S3Acl := ''bogus'', FilterModified := True, FSDisableXattr := True\<rparr>))
       = Fail acl_message
     \<and> Fail acl_message \<noteq> Fail ''Filter modified files (--filter-modified) required xattr''"
  by (simp add: GetCliArgs_def acl_values_def defaults_def acl_message_def)

text \<open>
  C8, amended. When the modified-only filter is requested and extended attributes are
  disabled, resolution never returns parsed arguments. It ends as the same arguments
  without the filter end when those fail, and with the message of the modified-only
  filter when those resolve: the check of the filter is the last one, and a check before
  it that fails wins. In the order of the checks, resolution ends with the message of the
  ACL option when the ACL is outside the list; else with that of the on-failure option
  when the string is none of the three; else with that of the bandwidth option when the
  rate does not parse; else with the error of \<open>parseConn\<close> for the source, then for the
  target; else with the message of the progress option when progress is requested and
  standard output is no terminal; else with the message of the file permissions, then of
  the directory permissions, when they do not parse; and with the message of the
  modified-only filter when none of these applies.
\<close>

theorem GetCliArgs_FilterModified:
  "FilterModified rawCli \<and> FSDisableXattr rawCli \<longrightarrow>
     (\<forall>cli. fst (GetCliArgs Digit env rawCli) \<noteq> Ok cli)
     \<and> ((\<exists>cli. fst (GetCliArgs Digit env (rawCli\<lparr>FilterModified := False\<rparr>)) = Ok cli) \<longrightarrow>
          fst (GetCliArgs Digit env rawCli) =
            Fail ''Filter modified files (--filter-modified) required xattr'')
     \<and> fst (GetCliArgs Digit env rawCli) =
         (case fst (GetCliArgs Digit env (rawCli\<lparr>FilterModified := False\<rparr>)) of
            Fail msg \<Rightarrow> Fail msg
          | Err err \<Rightarrow> Err err
          | Ok cli \<Rightarrow> Fail ''Filter modified files (--filter-modified) required xattr'')
     \<and> fst (GetCliArgs Digit env rawCli) =
         (if S3Acl rawCli \<notin> set acl_values then Fail acl_message
           else if args.OnFail rawCli \<noteq> ''fatal'' \<and> args.OnFail rawCli \<noteq> ''skip''
                   \<and> args.OnFail rawCli \<noteq> ''skipmissing'' then Fail onfail_message
           else if \<not> snd (parseBandwith Digit (args.RateLimitBandwidth rawCli))
             then Fail ''Invalid value of (--ratelimit-bandwidth) arg''
           else case parseConn (args.Source rawCli) of
             Inl err \<Rightarrow> Err err
           | Inr source \<Rightarrow>
               (case parseConn (args.Target rawCli) of
                  Inl err \<Rightarrow> Err err
                | Inr target \<Rightarrow>
                    if ShowProgress rawCli \<and> \<not> IsTerminal env
                    then Fail ''Progress (--sync-progress) require tty''
                    else
                      (case ParseUint (args.FSFilePerm rawCli) 8 32 of
                         Inl e \<Rightarrow> Fail ''Failed to parse arg --fs-file-perm''
                       | Inr filePerm \<Rightarrow>
                           (case ParseUint (args.FSDirPerm rawCli) 8 32 of
                              Inl e \<Rightarrow> Fail ''Failed to parse arg --fs-dir-perm''
                            | Inr dirPerm \<Rightarrow>
                                Fail ''Filter modified files (--filter-modified) required xattr''))))"
proof (intro impI conjI allI)
  assume h: "FilterModified rawCli \<and> FSDisableXattr rawCli"
  then show "fst (GetCliArgs Digit env rawCli) \<noteq> Ok cli" for cli
    by (intro FilterModified_never_Ok) simp_all
  from h show "fst (GetCliArgs Digit env rawCli) =
         (case fst (GetCliArgs Digit env (rawCli\<lparr>FilterModified := False\<rparr>)) of
            Fail msg \<Rightarrow> Fail msg
          | Err err \<Rightarrow> Err err
          | Ok cli \<Rightarrow> Fail ''Filter modified files (--filter-modified) required xattr'')"
    by (intro FilterModified_as_without) simp_all
  from h show "fst (GetCliArgs Digit env rawCli) =
         (if S3Acl rawCli \<notin> set acl_values then Fail acl_message
           else if args.OnFail rawCli \<noteq> ''fatal'' \<and> args.OnFail rawCli \<noteq> ''skip''
                   \<and> args.OnFail rawCli \<noteq> ''skipmissing'' then Fail onfail_message
           else if \<not> snd (parseBandwith Digit (args.RateLimitBandwidth rawCli))
             then Fail ''Invalid value of (--ratelimit-bandwidth) arg''
           else case parseConn (args.Source rawCli) of
             Inl err \<Rightarrow> Err err
           | Inr source \<Rightarrow>
               (case parseConn (args.Target rawCli) of
                  Inl err \<Rightarrow> Err err
                | Inr target \<Rightarrow>
                    if ShowProgress rawCli \<and> \<not> IsTerminal env
                    then Fail ''Progress (--sync-progress) require tty''
                    else
                      (case ParseUint (args.FSFilePerm rawCli) 8 32 of
                         Inl e \<Rightarrow> Fail ''Failed to parse arg --fs-file-perm''
                       | Inr filePerm \<Rightarrow>
                           (case ParseUint (args.FSDirPerm rawCli) 8 32 of
                              Inl e \<Rightarrow> Fail ''Failed to parse arg --fs-dir-perm''
                            | Inr dirPerm \<Rightarrow>
                                Fail ''Filter modified files (--filter-modified) required xattr''))))"
    by (intro FilterModified_order) simp_all
  assume "\<exists>cli. fst (GetCliArgs Digit env (rawCli\<lparr>FilterModified := False\<rparr>)) = Ok cli"
  then obtain cli where "fst (GetCliArgs Digit env (rawCli\<lparr>FilterModified := False\<rparr>)) = Ok cli" ..
  with h show "fst (GetCliArgs Digit env rawCli) =
            Fail ''Filter modified files (--filter-modified) required xattr''"
    by (intro FilterModified_fails_last [where cli = cli]) simp_all
qed

theorem GetCliArgs_FilterModified_witness:
  "\<forall>Digit env.
     fst (GetCliArgs Digit env
            (defaults\<lparr>args.Source := ''s3://bucket/path'', args.Target := ''/data/dir'',
                      FilterModified := True, FSDisableXattr := True\<rparr>))
       = Fail ''Filter modified files (--filter-modified) required xattr''
     \<and> fst (GetCliArgs Digit env
            (defaults\<lparr>args.Source := ''s3://bucket/path'', args.Target := ''/data/dir'',
                      args.OnFail := ''never'', FilterModified := True, FSDisableXattr := True\<rparr>))
       = Fail onfail_message
     \<and> fst (GetCliArgs Digit env
            (defaults\<lparr>args.Source := ''s3://bucket/path'', args.Target := ''/data/100%'',
                      FilterModified := True, FSDisableXattr := True\<rparr>))
       = Err (Error ''parse'' ''/data/100%'' (EscapeError ''%''))
     \<and> fst (GetCliArgs Digit env
            (defaults\<lparr>args.Source := ''s3://bucket/path'', args.Target := ''/data/dir'',
                      args.FSDirPerm := ''rwx'', FilterModified := True, FSDisableXattr := True\<rparr>))
       = Fail ''Failed to parse arg --fs-dir-perm''"
proof (intro allI conjI)
  fix Digit env
  let ?a = "defaults\<lparr>args.Source := ''s3://bucket/path'', args.Target := ''/data/dir'',
                      FilterModified := True, FSDisableXattr := True\<rparr>"
  have h: "FilterModified ?a \<and> FSDisableXattr ?a" by simp
  have "\<exists>cli. fst (GetCliArgs Digit env (?a\<lparr>FilterModified := False\<rparr>)) = Ok cli"
    by (simp add: GetCliArgs_eval)
  with GetCliArgs_FilterModified [where rawCli = ?a and Digit = Digit and env = env,
      THEN mp, OF h, THEN conjunct2, THEN conjunct1]
  show "fst (GetCliArgs Digit env ?a)
       = Fail ''Filter modified files (--filter-modified) required xattr''"
    by blast
  let ?b = "defaults\<lparr>args.Source := ''s3://bucket/path'', args.Target := ''/data/dir'',
                      args.OnFail := ''never'', FilterModified := True, FSDisableXattr := True\<rparr>"
  have hb: "FilterModified ?b \<and> FSDisableXattr ?b" by simp
  from GetCliArgs_FilterModified [where rawCli = ?b and Digit = Digit and env = env,
      THEN mp, OF hb, THEN conjunct2, THEN conjunct2, THEN conjunct2]
  show "fst (GetCliArgs Digit env ?b) = Fail onfail_message"
    by (simp add: defaults_def acl_values_def)
  let ?c = "defaults\<lparr>args.Source := ''s3://bucket/path'', args.Target := ''/data/100%'',
                      FilterModified := True, FSDisableXattr := True\<rparr>"
  have hc: "FilterModified ?c \<and> FSDisableXattr ?c" by simp
  have "fst (GetCliArgs Digit env (?c\<lparr>FilterModified := False\<rparr>))
      = Err (Error ''parse'' ''/data/100%'' (EscapeError ''%''))"
    by (simp add: GetCliArgs_eval)
  with GetCliArgs_FilterModified [where rawCli = ?c and Digit = Digit and env = env,
      THEN mp, OF hc, THEN conjunct2, THEN conjunct2, THEN conjunct1]
  show "fst (GetCliArgs Digit env ?c) = Err (Error ''parse'' ''/data/100%'' (EscapeError ''%''))"
    by simp
  let ?d = "defaults\<lparr>args.Source := ''s3://bucket/path'', args.Target := ''/data/dir'',
                      args.FSDirPerm := ''rwx'', FilterModified := True, FSDisableXattr := True\<rparr>"
  have hd: "FilterModified ?d \<and> FSDisableXattr ?d" by simp
  have "fst (GetCliArgs Digit env (?d\<lparr>FilterModified := False\<rparr>))
      = Fail ''Failed to parse arg --fs-dir-perm''"
    by (simp add: GetCliArgs_eval)
  with GetCliArgs_FilterModified [where rawCli = ?d and Digit = Digit and env = env,
      THEN mp, OF hd, THEN conjunct2, THEN conjunct2, THEN conjunct1]
  show "fst (GetCliArgs Digit env ?d) = Fail ''Failed to parse arg --fs-dir-perm''"
    by simp
qed

text \<open>
  C9. The outcome of resolution is a function of the raw arguments and of whether
  standard output is a terminal: two runs on the same arguments in environments that
  agree on the terminal end the same way, with equal parsed arguments when they
  succeed. A run changes the environment only in \<open>GODEBUG\<close>, so a second run after the
  first ends as the first did.
\<close>

theorem GetCliArgs_deterministic:
  "(IsTerminal env1 = IsTerminal env2 \<longrightarrow>
      fst (GetCliArgs Digit env1 rawCli) = fst (GetCliArgs Digit env2 rawCli))
   \<and> fst (GetCliArgs Digit (snd (GetCliArgs Digit env rawCli)) rawCli)
       = fst (GetCliArgs Digit env rawCli)"
proof -
  have "fst (GetCliArgs Digit (snd (GetCliArgs Digit env rawCli)) rawCli)
       = fst (GetCliArgs Digit env rawCli)"
    by (rule outcome_depends_on_IsTerminal) (rule IsTerminal_unchanged)
  then show ?thesis using outcome_depends_on_IsTerminal [of env1 env2 Digit rawCli] by blast
qed

theorem GetCliArgs_deterministic_witness:
  "\<forall>Digit.
     IsTerminal \<lparr>IsTerminal = False, GODEBUG = []\<rparr>
       = IsTerminal \<lparr>IsTerminal = False, GODEBUG = ''http2client=0''\<rparr>
     \<and> fst (GetCliArgs Digit \<lparr>IsTerminal = False, GODEBUG = []\<rparr>
              (defaults\<lparr>args.Source := ''s3://bucket/path'', args.Target := ''/data/dir'',
                        DisableHTTP2 := True\<rparr>))
       = fst (GetCliArgs Digit \<lparr>IsTerminal = False, GODEBUG = ''http2client=0''\<rparr>
              (defaults\<lparr>args.Source := ''s3://bucket/path'', args.Target := ''/data/dir'',
                        DisableHTTP2 := True\<rparr>))
     \<and> snd (GetCliArgs Digit \<lparr>IsTerminal = False, GODEBUG = []\<rparr>
              (defaults\<lparr>args.Source := ''s3://bucket/path'', args.Target := ''/data/dir'',
                        DisableHTTP2 := True\<rparr>))
       = \<lparr>IsTerminal = False, GODEBUG = ''http2client=0''\<rparr>"
proof (intro allI conjI)
  fix Digit
  show h: "IsTerminal \<lparr>IsTerminal = False, GODEBUG = []\<rparr>
       = IsTerminal \<lparr>IsTerminal = False, GODEBUG = ''http2client=0''\<rparr>"
    by simp
  from GetCliArgs_deterministic [where Digit = Digit, THEN conjunct1, THEN mp, OF h]
  show "fst (GetCliArgs Digit \<lparr>IsTerminal = False, GODEBUG = []\<rparr>
              (defaults\<lparr>args.Source := ''s3://bucket/path'', args.Target := ''/data/dir'',
                        DisableHTTP2 := True\<rparr>))
       = fst (GetCliArgs Digit \<lparr>IsTerminal = False, GODEBUG = ''http2client=0''\<rparr>
              (defaults\<lparr>args.Source := ''s3://bucket/path'', args.Target := ''/data/dir'',
                        DisableHTTP2 := True\<rparr>))" .
  show "snd (GetCliArgs Digit \<lparr>IsTerminal = False, GODEBUG = []\<rparr>
              (defaults\<lparr>args.Source := ''s3://bucket/path'', args.Target := ''/data/dir'',
                        DisableHTTP2 := True\<rparr>))
       = \<lparr>IsTerminal = False, GODEBUG = ''http2client=0''\<rparr>"
    by (simp add: GetCliArgs_eval)
qed

end
